theory Spec2Isabelle
  imports Main
begin

section \<open>Data model (frontend/lib/api-client, frontend/components/admin/LogsTable.tsx)\<close>

text \<open>
  The interfaces \<^verbatim>\<open>Risk\<close>, \<^verbatim>\<open>LogEntry\<close> and \<^verbatim>\<open>LogsResponse\<close> of the API client.
  JavaScript numbers that hold identifiers, counts and indices are integers here.
  The TypeScript type says that \<^verbatim>\<open>risks\<close> is always present, but the component guards
  against a missing array (\<^verbatim>\<open>log.risks || []\<close>, \<^verbatim>\<open>log.risks?.length ?? 0\<close>), so the
  field is optional in the model. The values of \<^verbatim>\<open>metadata\<close> are opaque.
\<close>

record risk =
  risk_type :: string
  risk_severity :: string
  risk_match :: string
  position_start :: int
  position_end :: int
  risk_explanation :: string

record log_entry =
  log_id :: int
  request_id :: string
  timestamp :: string
  original_prompt :: "string option"
  modified_prompt :: "string option"
  original_response :: "string option"
  modified_response :: "string option"
  decision :: string
  risks :: "risk list option"
  metadata :: "(string \<times> string) list"

record logs_response =
  r_logs :: "log_entry list"
  r_total :: int
  r_limit :: int
  r_offset :: int
  r_has_more :: bool

text \<open>The \<^verbatim>\<open>filters\<close> prop of the table; every member is optional.\<close>

record filters =
  f_type :: "string option"
  f_severity :: "string option"
  date_from :: "string option"
  date_to :: "string option"

datatype format = Json | Csv

text \<open>The argument object of \<^verbatim>\<open>apiClient.getLogs\<close>. A member that is \<^verbatim>\<open>undefined\<close> is
  \<open>None\<close>; \<^verbatim>\<open>getLogs\<close> leaves such members out of the query string.\<close>

record params =
  p_type :: "string option"
  p_severity :: "string option"
  p_date_from :: "string option"
  p_date_to :: "string option"
  p_limit :: "int option"
  p_offset :: "int option"
  p_format :: "format option"

section \<open>The Remote Log Source and the API client\<close>

text \<open>
  A JSON value, as \<^verbatim>\<open>response.json()\<close> gives it. Of a number the client uses only
  whether it is zero and the text that \<^verbatim>\<open>String\<close> gives for it, so a number is these two.
  The members of an object are in the order of the text; a later member hides an earlier
  one of the same name.
\<close>

datatype json =
    JNull
  | JBool bool
  | JNumber bool string
  | JString string
  | JArray "json list"
  | JObject "(string \<times> json) list"

text \<open>\<^verbatim>\<open>Array.prototype.join\<close> on strings.\<close>

fun join :: "string \<Rightarrow> string list \<Rightarrow> string" where
  "join sep [] = []"
| "join sep [x] = x"
| "join sep (x # y # ys) = x @ sep @ join sep (y # ys)"

text \<open>The conversion of a value to a string, which the constructor of \<^verbatim>\<open>Error\<close> applies
  to its message. An array is joined with commas, \<^verbatim>\<open>null\<close> elements counting as empty.\<close>

fun ToString :: "json \<Rightarrow> string" where
  "ToString JNull = ''null''"
| "ToString (JBool b) = (if b then ''true'' else ''false'')"
| "ToString (JNumber zero txt) = txt"
| "ToString (JString s) = s"
| "ToString (JArray xs) = join '','' (map (\<lambda>x. if x = JNull then [] else ToString x) xs)"
| "ToString (JObject kv) = ''[object Object]''"

text \<open>Truthiness of a value, as \<^verbatim>\<open>||\<close> tests it.\<close>

fun js_truthy :: "json \<Rightarrow> bool" where
  "js_truthy JNull = False"
| "js_truthy (JBool b) = b"
| "js_truthy (JNumber zero txt) = (\<not> zero)"
| "js_truthy (JString s) = (s \<noteq> [])"
| "js_truthy (JArray xs) = True"
| "js_truthy (JObject kv) = True"

text \<open>
  What \<^verbatim>\<open>fetch\<close> can give back: a rejected promise (network failure), a response whose
  \<^verbatim>\<open>ok\<close> flag is false (with its status text and body), or a successful response.
  The body of a failed response either is not JSON or is any JSON value. The body of a
  successful response is a \<^verbatim>\<open>LogsResponse\<close> in JSON, or some other text (the CSV export).
\<close>

datatype err_body = NotJson | JsonBody json

datatype payload = Logs logs_response | Text string

datatype http_response =
    NetworkFailure
  | NotOk string err_body
  | Ok payload

type_synonym remote = "params \<Rightarrow> http_response"

text \<open>Exceptions: \<^verbatim>\<open>APIError\<close> with its message, or any other error
  (the \<^verbatim>\<open>TypeError\<close> of a failed \<^verbatim>\<open>fetch\<close>, the \<^verbatim>\<open>SyntaxError\<close> of \<^verbatim>\<open>response.json()\<close>).\<close>

datatype exn = APIError string | OtherError

text \<open>JavaScript truthiness of an optional string: \<^verbatim>\<open>undefined\<close> and \<^verbatim>\<open>""\<close> are falsy.\<close>

definition truthy :: "string option \<Rightarrow> bool" where
  "truthy v = (case v of None \<Rightarrow> False | Some s \<Rightarrow> s \<noteq> [])"

text \<open>The property read \<^verbatim>\<open>errorData.detail\<close>: a \<^verbatim>\<open>TypeError\<close> on \<^verbatim>\<open>null\<close>, the member of an
  object, and \<^verbatim>\<open>undefined\<close> on every other value.\<close>

definition get_detail :: "json \<Rightarrow> exn + json option" where
  "get_detail errorData =
     (case errorData of
        JNull \<Rightarrow> Inl OtherError
      | JObject kv \<Rightarrow> Inr (map_of (rev kv) ''detail'')
      | _ \<Rightarrow> Inr None)"

text \<open>\<^verbatim>\<open>fetchAPI\<close>, as a function of what \<^verbatim>\<open>fetch\<close> gave back (lines 400-414).\<close>

definition fetchAPI :: "http_response \<Rightarrow> exn + logs_response" where
  "fetchAPI resp =
     (case resp of
        NetworkFailure \<Rightarrow> Inl OtherError
      | NotOk statusText body \<Rightarrow>
          (let errorData = (case body of
                              NotJson \<Rightarrow> JObject [(''detail'', JString statusText)]
                            | JsonBody j \<Rightarrow> j)
           in case get_detail errorData of
                Inl e \<Rightarrow> Inl e
              | Inr detail \<Rightarrow>
                  Inl (APIError (case detail of
                                   None \<Rightarrow> ''API request failed: '' @ statusText
                                 | Some d \<Rightarrow> if js_truthy d then ToString d
                                            else ''API request failed: '' @ statusText)))
      | Ok (Logs r) \<Rightarrow> Inr r
      | Ok (Text t) \<Rightarrow> Inl OtherError)"

text \<open>\<^verbatim>\<open>apiClient.getLogs\<close>, applied to the response of the remote source: the CSV
  format reads the body as text, every other call goes through \<^verbatim>\<open>fetchAPI\<close>.\<close>

definition getLogs_response :: "format option \<Rightarrow> http_response \<Rightarrow> exn + payload" where
  "getLogs_response fmt resp =
     (if fmt = Some Csv then
        (case resp of
           NetworkFailure \<Rightarrow> Inl OtherError
         | NotOk statusText body \<Rightarrow> Inl (APIError (''Failed to fetch logs: '' @ statusText))
         | Ok p \<Rightarrow> Inr p)
      else map_sum (\<lambda>e. e) Logs (fetchAPI resp))"

definition getLogs :: "remote \<Rightarrow> params \<Rightarrow> exn + payload" where
  "getLogs remote p = getLogs_response (p_format p) (remote p)"

section \<open>Query Router and Local Filter Cache\<close>

text \<open>\<^verbatim>\<open>Boolean(filters?.type || filters?.severity)\<close>\<close>

definition hasTypeOrSeverity :: "filters option \<Rightarrow> bool" where
  "hasTypeOrSeverity fo =
     (case fo of None \<Rightarrow> False | Some f \<Rightarrow> truthy (f_type f) \<or> truthy (f_severity f))"

text \<open>The request of the bulk fetch: \<^verbatim>\<open>{ ...rest, limit: 1000, offset: 0, format: 'json' }\<close>
  with \<^verbatim>\<open>const { type, severity, ...rest } = filters || {}\<close>.\<close>

definition bulk_params :: "filters option \<Rightarrow> params" where
  "bulk_params fo =
     \<lparr> p_type = None, p_severity = None,
       p_date_from = (case fo of None \<Rightarrow> None | Some f \<Rightarrow> date_from f),
       p_date_to = (case fo of None \<Rightarrow> None | Some f \<Rightarrow> date_to f),
       p_limit = Some 1000, p_offset = Some 0, p_format = Some Json \<rparr>"

text \<open>The request of a server-side call: \<^verbatim>\<open>{ ...filters, limit, offset, format }\<close>.\<close>

definition spread_params :: "filters option \<Rightarrow> int \<Rightarrow> int \<Rightarrow> format \<Rightarrow> params" where
  "spread_params fo lim off fmt =
     \<lparr> p_type = (case fo of None \<Rightarrow> None | Some f \<Rightarrow> f_type f),
       p_severity = (case fo of None \<Rightarrow> None | Some f \<Rightarrow> f_severity f),
       p_date_from = (case fo of None \<Rightarrow> None | Some f \<Rightarrow> date_from f),
       p_date_to = (case fo of None \<Rightarrow> None | Some f \<Rightarrow> date_to f),
       p_limit = Some lim, p_offset = Some off, p_format = Some fmt \<rparr>"

text \<open>The callback of \<^verbatim>\<open>response.logs.filter\<close> in \<^verbatim>\<open>fetchLogs\<close> (lines 47-52).\<close>

definition fetch_match :: "string option \<Rightarrow> string option \<Rightarrow> log_entry \<Rightarrow> bool" where
  "fetch_match ty severity log =
     (let rs = (case risks log of None \<Rightarrow> [] | Some a \<Rightarrow> a);
          typeOk = (case ty of
                      None \<Rightarrow> True
                    | Some t \<Rightarrow> if t \<noteq> [] then list_ex (\<lambda>r. risk_type r = t) rs else True);
          severityOk = (case severity of
                      None \<Rightarrow> True
                    | Some s \<Rightarrow> if s \<noteq> [] then list_ex (\<lambda>r. risk_severity r = s) rs else True)
      in typeOk \<and> severityOk)"

definition fetch_filtered :: "filters option \<Rightarrow> logs_response \<Rightarrow> log_entry list" where
  "fetch_filtered fo response =
     (let ty = (case fo of None \<Rightarrow> None | Some f \<Rightarrow> f_type f);
          severity = (case fo of None \<Rightarrow> None | Some f \<Rightarrow> f_severity f)
      in filter (fetch_match ty severity) (r_logs response))"

text \<open>\<^verbatim>\<open>Array.prototype.slice(start, end)\<close>: a negative index counts from the end of
  the array, and both indices are clamped to the array.\<close>

definition slice :: "'a list \<Rightarrow> int \<Rightarrow> int \<Rightarrow> 'a list" where
  "slice xs start fin =
     (let n = int (length xs);
          k = (if start < 0 then max (n + start) 0 else min start n);
          e = (if fin < 0 then max (n + fin) 0 else min fin n)
      in take (nat (e - k)) (drop (nat k) xs))"

section \<open>The table component\<close>

text \<open>
  The values that the closure of \<^verbatim>\<open>fetchLogs\<close> captures in the render that created it.
\<close>

record closure =
  c_filters :: "filters option"
  c_limit :: int
  c_offset :: int

text \<open>
  The state of \<^verbatim>\<open>LogsTable\<close> (one field for each \<^verbatim>\<open>useState\<close>), its prop, and two
  fields that record the interaction with the remote source: \<open>calls\<close>, the requests sent
  so far, and \<open>pending\<close>, the calls of \<^verbatim>\<open>fetchLogs\<close> that wait for their response.
\<close>

record table =
  logs :: "log_entry list"
  loading :: bool
  error :: "string option"
  total_count :: int
  limit :: int
  offset :: int
  hasMore :: bool
  clientMode :: bool
  clientAll :: "log_entry list"
  filters_prop :: "filters option"
  calls :: "params list"
  pending :: "closure list"

definition init :: "filters option \<Rightarrow> table" where
  "init fo =
     \<lparr> logs = [], loading = True, error = None, total_count = 0, limit = 50, offset = 0,
       hasMore = False, clientMode = False, clientAll = [], filters_prop = fo,
       calls = [], pending = [] \<rparr>"

definition closure_of :: "table \<Rightarrow> closure" where
  "closure_of t = \<lparr> c_filters = filters_prop t, c_limit = limit t, c_offset = offset t \<rparr>"

text \<open>The request that \<^verbatim>\<open>fetchLogs\<close> sends (lines 35-45 and 61-66).\<close>

definition fetch_params :: "closure \<Rightarrow> params" where
  "fetch_params c =
     (if hasTypeOrSeverity (c_filters c) then bulk_params (c_filters c)
      else spread_params (c_filters c) (c_limit c) (c_offset c) Json)"

text \<open>\<^verbatim>\<open>fetchLogs\<close> up to its \<^verbatim>\<open>await\<close>: the flags are set and the request leaves.\<close>

definition fetchLogs_begin :: "table \<Rightarrow> table" where
  "fetchLogs_begin t =
     t \<lparr> loading := True, error := None,
         calls := calls t @ [fetch_params (closure_of t)] \<rparr>"

text \<open>The same, with the call noted as waiting for its response.\<close>

definition fetchLogs_start :: "table \<Rightarrow> table" where
  "fetchLogs_start t = (fetchLogs_begin t) \<lparr> pending := pending t @ [closure_of t] \<rparr>"

text \<open>\<^verbatim>\<open>fetchLogs\<close> after its \<^verbatim>\<open>await\<close>: the rest of the \<^verbatim>\<open>try\<close> block, the
  \<^verbatim>\<open>catch\<close> and the \<^verbatim>\<open>finally\<close>. A payload that is not a \<^verbatim>\<open>LogsResponse\<close> cannot come
  back from a JSON request; the cast would make \<^verbatim>\<open>response.logs\<close> undefined.\<close>

definition fetchLogs_resume :: "closure \<Rightarrow> exn + payload \<Rightarrow> table \<Rightarrow> table" where
  "fetchLogs_resume c outcome t =
     (case outcome of
        Inr (Logs response) \<Rightarrow>
          (if hasTypeOrSeverity (c_filters c) then
             (let filtered = fetch_filtered (c_filters c) response
              in t \<lparr> clientMode := True, clientAll := filtered,
                     total_count := int (length filtered),
                     hasMore := (c_offset c + c_limit c < int (length filtered)),
                     logs := slice filtered (c_offset c) (c_offset c + c_limit c),
                     loading := False \<rparr>)
           else
             t \<lparr> clientMode := False, clientAll := [],
                 logs := r_logs response, total_count := r_total response,
                 hasMore := r_has_more response, loading := False \<rparr>)
      | Inr (Text body) \<Rightarrow> t \<lparr> error := Some ''Failed to fetch logs'', loading := False \<rparr>
      | Inl (APIError message) \<Rightarrow> t \<lparr> error := Some message, loading := False \<rparr>
      | Inl OtherError \<Rightarrow> t \<lparr> error := Some ''Failed to fetch logs'', loading := False \<rparr>)"

text \<open>The second effect (lines 90-96), with dependencies
  \<^verbatim>\<open>[clientMode, clientAll, limit, offset]\<close>.\<close>

definition reslice :: "table \<Rightarrow> table" where
  "reslice t =
     (if clientMode t then
        t \<lparr> logs := slice (clientAll t) (offset t) (offset t + limit t),
            hasMore := (offset t + limit t < int (length (clientAll t))),
            total_count := int (length (clientAll t)) \<rparr>
      else t)"

text \<open>\<^verbatim>\<open>fetchLogs\<close> run from its first line to its last, the remote source answering
  at once.\<close>

definition fetchLogs :: "remote \<Rightarrow> table \<Rightarrow> table" where
  "fetchLogs remote t =
     fetchLogs_resume (closure_of t) (getLogs remote (fetch_params (closure_of t)))
       (fetchLogs_begin t)"

text \<open>
  State changes and the effects that follow them. The first effect calls \<^verbatim>\<open>fetchLogs\<close>
  when \<^verbatim>\<open>limit\<close>, \<^verbatim>\<open>offset\<close> or \<^verbatim>\<open>filters\<close> changed; the second one is \<open>reslice\<close>.
  A setter called with the current value causes no render. The component itself never
  calls \<^verbatim>\<open>setLimit\<close>; \<open>set_limit\<close> is what its effects would do if it did.
\<close>

definition set_offset :: "int \<Rightarrow> table \<Rightarrow> table" where
  "set_offset v t = (if v = offset t then t else reslice (fetchLogs_start (t \<lparr> offset := v \<rparr>)))"

definition set_limit :: "int \<Rightarrow> table \<Rightarrow> table" where
  "set_limit v t = (if v = limit t then t else reslice (fetchLogs_start (t \<lparr> limit := v \<rparr>)))"

text \<open>The parent passes a new \<^verbatim>\<open>filters\<close> object: only the first effect runs.\<close>

definition set_filters :: "filters option \<Rightarrow> table \<Rightarrow> table" where
  "set_filters fo t = fetchLogs_start (t \<lparr> filters_prop := fo \<rparr>)"

text \<open>Mounting: the first render, after which both effects run.\<close>

definition mount :: "filters option \<Rightarrow> table" where
  "mount fo = reslice (fetchLogs_start (init fo))"

text \<open>
  The response to the \<open>i\<close>-th waiting call arrives: \<^verbatim>\<open>fetchLogs\<close> resumes after its
  \<^verbatim>\<open>await\<close> and writes the state with the values of its closure. The writes are
  batched into one render (the file is a client component of the app router, hence
  React 18); \<open>resume_waiting\<close> is the table of that render.
\<close>

definition resume_waiting :: "nat \<Rightarrow> http_response \<Rightarrow> table \<Rightarrow> table" where
  "resume_waiting i resp t =
     (let c = pending t ! i;
          t1 = t \<lparr> pending := take i (pending t) @ drop (Suc i) (pending t) \<rparr>
      in fetchLogs_resume c (getLogs_response (p_format (fetch_params c)) resp) t1)"

text \<open>
  After that render the effects run. On success \<^verbatim>\<open>clientAll\<close> is a new array, so the
  second effect runs and a second render follows; on failure none of the dependencies
  changed. \<open>settle\<close> is the table once the effects have run.
\<close>

definition settle :: "nat \<Rightarrow> http_response \<Rightarrow> table \<Rightarrow> table" where
  "settle i resp t =
     (if i < length (pending t) then
        (case getLogs_response (p_format (fetch_params (pending t ! i))) resp of
           Inr (Logs response) \<Rightarrow> reslice (resume_waiting i resp t)
         | _ \<Rightarrow> resume_waiting i resp t)
      else t)"

text \<open>What the component renders (lines 210-304): the loading text, the error box, or
  the table with its header numbers and the two paging buttons.\<close>

datatype view =
    LoadingView
  | ErrorView string
  | TableView (rows: "log_entry list") (showing_from: int) (showing_to: int) (of_total: int)
      (previous_disabled: bool) (next_disabled: bool)

definition render :: "table \<Rightarrow> view" where
  "render t =
     (if loading t \<and> logs t = [] then LoadingView
      else if truthy (error t) then ErrorView (case error t of None \<Rightarrow> [] | Some e \<Rightarrow> e)
      else TableView (logs t) (offset t + 1) (min (offset t + limit t) (total_count t))
             (total_count t) (offset t = 0) (\<not> hasMore t))"

text \<open>The \<^verbatim>\<open>onClick\<close> handlers of the two buttons.\<close>

definition click_previous :: "table \<Rightarrow> table" where
  "click_previous t = set_offset (max 0 (offset t - limit t)) t"

definition click_next :: "table \<Rightarrow> table" where
  "click_next t = set_offset (offset t + limit t) t"

text \<open>The events of the component. A click reaches its handler only when the table is
  rendered and the button is enabled.\<close>

datatype event =
    Props "filters option"
  | Previous
  | Next
  | Response nat http_response

fun step :: "event \<Rightarrow> table \<Rightarrow> table" where
  "step (Props fo) t = set_filters fo t"
| "step Previous t =
     (case render t of
        TableView ls a b n pd nd \<Rightarrow> if pd then t else click_previous t
      | _ \<Rightarrow> t)"
| "step Next t =
     (case render t of
        TableView ls a b n pd nd \<Rightarrow> if nd then t else click_next t
      | _ \<Rightarrow> t)"
| "step (Response i resp) t = settle i resp t"

text \<open>\<open>step\<close> gives the table once the handler of the event and the effects that follow
  it have run; \<open>run\<close> does so for a sequence of events.\<close>

definition run :: "event list \<Rightarrow> table \<Rightarrow> table" where
  "run evs t = fold step evs t"

text \<open>
  The renders that the component commits for one event: first the render of the state
  change itself, then the render after the effects that this change set off. The last
  of them is the table that \<open>step\<close> gives.
\<close>

fun commits :: "event \<Rightarrow> table \<Rightarrow> table list" where
  "commits (Props fo) t = [t \<lparr> filters_prop := fo \<rparr>, set_filters fo t]"
| "commits Previous t =
     (case render t of
        TableView ls a b n pd nd \<Rightarrow>
          if pd \<or> max 0 (offset t - limit t) = offset t then []
          else [t \<lparr> offset := max 0 (offset t - limit t) \<rparr>, click_previous t]
      | _ \<Rightarrow> [])"
| "commits Next t =
     (case render t of
        TableView ls a b n pd nd \<Rightarrow>
          if nd \<or> offset t + limit t = offset t then []
          else [t \<lparr> offset := offset t + limit t \<rparr>, click_next t]
      | _ \<Rightarrow> [])"
| "commits (Response i resp) t =
     (if i < length (pending t) then
        (case getLogs_response (p_format (fetch_params (pending t ! i))) resp of
           Inr (Logs response) \<Rightarrow> [resume_waiting i resp t, settle i resp t]
         | _ \<Rightarrow> [resume_waiting i resp t])
      else [])"

fun renders :: "event list \<Rightarrow> table \<Rightarrow> table list" where
  "renders [] t = []"
| "renders (ev # evs) t = commits ev t @ renders evs (step ev t)"

text \<open>Every render from mounting on: the first render, the render after the effects of
  mounting, and the renders of the events.\<close>

definition all_renders :: "filters option \<Rightarrow> event list \<Rightarrow> table list" where
  "all_renders fo evs = init fo # mount fo # renders evs (mount fo)"

section \<open>Exporter\<close>

text \<open>The callback of \<^verbatim>\<open>response.logs.filter\<close> in \<^verbatim>\<open>handleExport\<close> (lines 112-117),
  written a second time in the source.\<close>

definition export_match :: "string option \<Rightarrow> string option \<Rightarrow> log_entry \<Rightarrow> bool" where
  "export_match ty severity log =
     (let rs = (case risks log of None \<Rightarrow> [] | Some a \<Rightarrow> a);
          typeOk = (case ty of
                      None \<Rightarrow> True
                    | Some t \<Rightarrow> if t \<noteq> [] then list_ex (\<lambda>r. risk_type r = t) rs else True);
          severityOk = (case severity of
                      None \<Rightarrow> True
                    | Some s \<Rightarrow> if s \<noteq> [] then list_ex (\<lambda>r. risk_severity r = s) rs else True)
      in typeOk \<and> severityOk)"

definition export_filtered :: "filters option \<Rightarrow> logs_response \<Rightarrow> log_entry list" where
  "export_filtered fo response =
     (let ty = (case fo of None \<Rightarrow> None | Some f \<Rightarrow> f_type f);
          severity = (case fo of None \<Rightarrow> None | Some f \<Rightarrow> f_severity f)
      in filter (export_match ty severity) (r_logs response))"

text \<open>\<^verbatim>\<open>String(n)\<close> for an integer \<open>n\<close>: its decimal digits, after a minus sign when it
  is negative.\<close>

definition digit :: "nat \<Rightarrow> char" where
  "digit d = ''0123456789'' ! (d mod 10)"

function nat_digits :: "nat \<Rightarrow> string" where
  "nat_digits n = (if n < 10 then [digit n] else nat_digits (n div 10) @ [digit (n mod 10)])"
  by pat_completeness auto
termination
  by (relation "measure (\<lambda>n. n)") auto

declare nat_digits.simps [simp del]

definition String :: "int \<Rightarrow> string" where
  "String i = (if i < 0 then CHR ''-'' # nat_digits (nat (- i)) else nat_digits (nat i))"

definition quote :: char where
  "quote = CHR 0x22"

definition newline :: char where
  "newline = CHR 0x0A"

definition comma :: char where
  "comma = CHR '',''"

text \<open>The template literal \<^verbatim>\<open>`"${s}"`\<close>.\<close>

definition quoted :: "string \<Rightarrow> string" where
  "quoted s = [quote] @ s @ [quote]"

text \<open>The CSV serialisation of the local export (lines 121-132).\<close>

definition csv_header :: string where
  "csv_header = ''id,request_id,timestamp,decision,risk_count'' @ [newline]"

definition csv_cols :: "log_entry \<Rightarrow> string list" where
  "csv_cols log =
     [ String (log_id log),
       quoted (request_id log),
       quoted (timestamp log),
       quoted (decision log),
       String (case risks log of None \<Rightarrow> 0 | Some rs \<Rightarrow> int (length rs)) ]"

definition csv_row :: "log_entry \<Rightarrow> string" where
  "csv_row log = join [comma] (csv_cols log)"

definition csv_text :: "log_entry list \<Rightarrow> string" where
  "csv_text filtered = csv_header @ join [newline] (map csv_row filtered)"

text \<open>The object given to \<^verbatim>\<open>JSON.stringify\<close> in the local export (lines 143-149).\<close>

definition json_object :: "log_entry list \<Rightarrow> logs_response" where
  "json_object filtered =
     \<lparr> r_logs = filtered, r_total = int (length filtered), r_limit = int (length filtered),
       r_offset = 0, r_has_more = False \<rparr>"

text \<open>
  The file that the browser is told to download: its name, its MIME type and the
  content of its blob. The content \<open>Text s\<close> is the string \<open>s\<close> as it is; the content
  \<open>Logs v\<close> is \<^verbatim>\<open>JSON.stringify(v, null, 2)\<close>. The date in the file name is an input.
\<close>

record download =
  file_name :: string
  mime_type :: string
  content :: payload

datatype export_result = Downloaded download | Alert string

text \<open>The request that \<^verbatim>\<open>handleExport\<close> sends (lines 104-110 and 161-166).\<close>

definition export_params :: "filters option \<Rightarrow> format \<Rightarrow> params" where
  "export_params fo fmt =
     (if hasTypeOrSeverity fo then bulk_params fo else spread_params fo 1000 0 fmt)"

definition csv_file :: "string \<Rightarrow> payload \<Rightarrow> download" where
  "csv_file today body =
     \<lparr> file_name = ''logs-'' @ today @ ''.csv'', mime_type = ''text/csv'', content = body \<rparr>"

definition json_file :: "string \<Rightarrow> payload \<Rightarrow> download" where
  "json_file today body =
     \<lparr> file_name = ''logs-'' @ today @ ''.json'', mime_type = ''application/json'',
       content = body \<rparr>"

definition handleExport :: "remote \<Rightarrow> string \<Rightarrow> filters option \<Rightarrow> format \<Rightarrow> export_result" where
  "handleExport remote today fo fmt =
     (if hasTypeOrSeverity fo then
        (case getLogs remote (export_params fo fmt) of
           Inl e \<Rightarrow> Alert ''Failed to export logs''
         | Inr (Text body) \<Rightarrow> Alert ''Failed to export logs''
         | Inr (Logs response) \<Rightarrow>
             (let filtered = export_filtered fo response
              in if fmt = Csv then Downloaded (csv_file today (Text (csv_text filtered)))
                 else Downloaded (json_file today (Logs (json_object filtered)))))
      else
        (case getLogs remote (export_params fo fmt) of
           Inl e \<Rightarrow> Alert ''Failed to export logs''
         | Inr data \<Rightarrow>
             if fmt = Csv then Downloaded (csv_file today data)
             else Downloaded (json_file today data)))"

section \<open>Notions of the specification\<close>

text \<open>A string cut at every occurrence of a separator character (\<^verbatim>\<open>s.split(c)\<close>):
  the comma-separated fields of a row, the lines of a text.\<close>

fun split_on :: "char \<Rightarrow> string \<Rightarrow> string list" where
  "split_on c [] = [[]]"
| "split_on c (x # xs) =
     (if x = c then [] # split_on c xs
      else (case split_on c xs of [] \<Rightarrow> [[x]] | y # ys \<Rightarrow> (x # y) # ys))"

text \<open>A filter field is set when it holds a non-empty string.\<close>

definition is_set :: "string option \<Rightarrow> bool" where
  "is_set v = (v \<noteq> None \<and> v \<noteq> Some [])"

text \<open>The risks of a record, a missing array counting as the empty one.\<close>

definition risks_of :: "log_entry \<Rightarrow> risk list" where
  "risks_of log = (case risks log of None \<Rightarrow> [] | Some rs \<Rightarrow> rs)"

text \<open>The matching predicate in the words of the specification: the risk type is unset
  or some risk of the record has it, and the severity is unset or some risk of the
  record has it.\<close>

definition spec_match :: "filters \<Rightarrow> log_entry \<Rightarrow> bool" where
  "spec_match f log =
     ((\<not> is_set (f_type f) \<or> (\<exists>r \<in> set (risks_of log). Some (risk_type r) = f_type f)) \<and>
      (\<not> is_set (f_severity f) \<or> (\<exists>r \<in> set (risks_of log). Some (risk_severity r) = f_severity f)))"

text \<open>The page \<open>A[offset : offset + limit)\<close> of a list, for an offset and a page size that
  are not negative, and the page response of a remote source that pages the list \<open>A\<close>.\<close>

definition page :: "'a list \<Rightarrow> int \<Rightarrow> int \<Rightarrow> 'a list" where
  "page A off lim = take (nat lim) (drop (nat off) A)"

definition page_response :: "log_entry list \<Rightarrow> int \<Rightarrow> int \<Rightarrow> logs_response" where
  "page_response A lim off =
     \<lparr> r_logs = page A off lim, r_total = int (length A), r_limit = lim, r_offset = off,
       r_has_more = (off + lim < int (length A)) \<rparr>"


text \<open>
  The fields of a row as a reader of CSV sees them: a comma separates two fields unless
  it stands between double quotes. The scan keeps the quotes in the fields; \<open>q\<close> tells
  whether the scan is inside quotes and \<open>cur\<close> holds the current field, reversed.
\<close>

fun csv_scan :: "bool \<Rightarrow> string \<Rightarrow> string \<Rightarrow> string list" where
  "csv_scan q cur [] = [rev cur]"
| "csv_scan q cur (x # xs) =
     (if x = quote then csv_scan (\<not> q) (x # cur) xs
      else if x = comma \<and> \<not> q then rev cur # csv_scan False [] xs
      else csv_scan q (x # cur) xs)"

definition csv_fields :: "string \<Rightarrow> string list" where
  "csv_fields row = csv_scan False [] row"

text \<open>The three strings of a record that the export puts between quotes are free of
  the character \<open>c\<close>.\<close>

definition plain :: "char \<Rightarrow> log_entry \<Rightarrow> bool" where
  "plain c log = (c \<notin> set (request_id log) \<and> c \<notin> set (timestamp log) \<and> c \<notin> set (decision log))"

text \<open>The invariant of the table once the effects have run: the page size stays 50, the offset is never negative,
  and in client mode the rows, the total and \<^verbatim>\<open>hasMore\<close> are those of the page of the cache
  at the current offset.\<close>

definition table_inv :: "table \<Rightarrow> bool" where
  "table_inv t =
     (limit t = 50 \<and> 0 \<le> offset t \<and>
      (clientMode t \<longrightarrow>
         logs t = page (clientAll t) (offset t) (limit t)
         \<and> total_count t = int (length (clientAll t))
         \<and> hasMore t = (offset t + limit t < int (length (clientAll t)))))"

section \<open>Example inputs\<close>

text \<open>The three stored records of the scenario in the specification, and a remote source
  that serves them.\<close>

definition pii_high :: risk where
  "pii_high = \<lparr> risk_type = ''pii'', risk_severity = ''high'', risk_match = ''a@b.c'',
       position_start = 0, position_end = 5, risk_explanation = ''email'' \<rparr>"

definition injection_low :: risk where
  "injection_low = \<lparr> risk_type = ''injection'', risk_severity = ''low'', risk_match = ''ignore'',
       position_start = 3, position_end = 9, risk_explanation = ''override'' \<rparr>"

definition entry :: "int \<Rightarrow> risk list option \<Rightarrow> log_entry" where
  "entry i rs = \<lparr> log_id = i, request_id = ''req'', timestamp = ''2024-01-01T00:00:00Z'',
       original_prompt = None, modified_prompt = None, original_response = None,
       modified_response = None, decision = ''allow'', risks = rs, metadata = [] \<rparr>"

definition three_records :: "log_entry list" where
  "three_records = [entry 1 (Some [pii_high]), entry 2 (Some [injection_low]), entry 3 None]"

definition three_response :: logs_response where
  "three_response = page_response three_records 1000 0"

definition by_type :: "string \<Rightarrow> filters" where
  "by_type ty = \<lparr> f_type = Some ty, f_severity = None, date_from = None, date_to = None \<rparr>"

definition serve_three :: remote where
  "serve_three p = Ok (Logs three_response)"

text \<open>Criteria with a date only, and a remote source that has an export text.\<close>

definition no_filters :: filters where
  "no_filters = \<lparr> f_type = None, f_severity = None, date_from = Some ''2024-01-01'', date_to = None \<rparr>"

definition serve_text :: remote where
  "serve_text p = (if p_format p = Some Csv then Ok (Text ''id,request_id'') else Ok (Logs three_response))"


text \<open>A record with one risk whose request identifier holds a double quote, a comma and a
  double quote, and a remote source that serves this record.\<close>

definition tricky :: log_entry where
  "tricky = (entry 7 (Some [pii_high])) \<lparr> request_id := [CHR ''a'', quote, comma, quote, CHR ''b''] \<rparr>"

definition serve_tricky :: remote where
  "serve_tricky p = Ok (Logs (page_response [tricky] 1000 0))"

text \<open>Fifty-one records that all carry the risk \<open>pii_high\<close>, and the table after it was
  mounted and the first response arrived: once with a filter on the risk type (local
  mode), once without criteria (remote mode). \<open>turning\<close> is the second table after a
  click on "next", its call still waiting.\<close>

definition many :: "log_entry list" where
  "many = map (\<lambda>i. entry (int i) (Some [pii_high])) [0..<51]"

definition local_51 :: table where
  "local_51 = run [Response 0 (Ok (Logs (page_response many 1000 0)))] (mount (Some (by_type ''pii'')))"

definition remote_51 :: table where
  "remote_51 = run [Response 0 (Ok (Logs (page_response many 50 0)))] (mount None)"

definition turning :: table where
  "turning = step Next remote_51"

text \<open>After "next" and "previous" in local mode two calls wait, the first with the offset
  50 in its closure. \<open>stale_commit\<close> is the render that follows the response to the first.\<close>

definition back_and_forth :: table where
  "back_and_forth = run [Next, Previous] local_51"

definition stale_commit :: table where
  "stale_commit = resume_waiting 0 (Ok (Logs (page_response many 1000 0))) back_and_forth"




section \<open>Auxiliary facts\<close>

lemma slice_page: "0 \<le> a \<Longrightarrow> 0 \<le> l \<Longrightarrow> slice xs a (a + l) = page xs a l"
  by (auto simp: slice_def page_def Let_def min_def max_def)



section \<open>The two filter callbacks and the predicate of the specification\<close>

lemma truthy_is_set: "truthy v = is_set v"
  by (cases v) (simp_all add: truthy_def is_set_def)

lemma fetch_match_spec:
  "fetch_match (f_type f) (f_severity f) log = spec_match f log"
  by (cases "f_type f"; cases "f_severity f")
     (auto simp: fetch_match_def spec_match_def is_set_def risks_of_def list_ex_iff Let_def)

lemma export_match_fetch_match: "export_match ty sev = fetch_match ty sev"
  by (rule ext) (simp add: export_match_def fetch_match_def)

lemma export_filtered_fetch_filtered: "export_filtered fo response = fetch_filtered fo response"
  by (simp add: export_filtered_def fetch_filtered_def export_match_fetch_match)

lemma fetch_filtered_spec: "fetch_filtered (Some f) response = filter (spec_match f) (r_logs response)"
  by (simp add: fetch_filtered_def fetch_match_spec [abs_def] Let_def)

lemma getLogs_bulk_ok:
  "remote (bulk_params fo) = Ok (Logs response) \<Longrightarrow> getLogs remote (bulk_params fo) = Inr (Logs response)"
  by (simp add: getLogs_def getLogs_response_def fetchAPI_def bulk_params_def)

lemma fetchLogs_local_ok:
  assumes "hasTypeOrSeverity (filters_prop t)"
    and "remote (bulk_params (filters_prop t)) = Ok (Logs response)"
  shows "fetchLogs remote t =
     t \<lparr> loading := False, error := None,
         calls := calls t @ [bulk_params (filters_prop t)],
         clientMode := True, clientAll := fetch_filtered (filters_prop t) response,
         total_count := int (length (fetch_filtered (filters_prop t) response)),
         hasMore := (offset t + limit t < int (length (fetch_filtered (filters_prop t) response))),
         logs := slice (fetch_filtered (filters_prop t) response) (offset t) (offset t + limit t) \<rparr>"
  using assms getLogs_bulk_ok [of remote "filters_prop t" response]
  by (simp add: fetchLogs_def fetch_params_def closure_of_def fetchLogs_begin_def
      fetchLogs_resume_def Let_def)

section \<open>Local Filter Cache\<close>

text \<open>
  C2. For criteria with a risk type or a severity set, \<^verbatim>\<open>fetchLogs\<close> asks the remote source
  for the first 1000 records under the date criteria alone (type and severity left out,
  offset 0), and the cache it leaves, which is the set the table shows, holds exactly
  the returned records \<open>r\<close> such that (risk type unset or some risk of \<open>r\<close> has that type)
  and (severity unset or some risk of \<open>r\<close> has that severity), a missing \<^verbatim>\<open>risks\<close> array
  counting as empty. A field is set when it holds a non-empty string.
\<close>

theorem local_cache_is_filtered_bulk:
  assumes "is_set (f_type f) \<or> is_set (f_severity f)"
    and "filters_prop t = Some f"
    and "remote \<lparr> p_type = None, p_severity = None, p_date_from = date_from f,
                   p_date_to = date_to f, p_limit = Some 1000, p_offset = Some 0,
                   p_format = Some Json \<rparr> = Ok (Logs response)"
  shows "calls (fetchLogs remote t) = calls t @
           [\<lparr> p_type = None, p_severity = None, p_date_from = date_from f,
              p_date_to = date_to f, p_limit = Some 1000, p_offset = Some 0,
              p_format = Some Json \<rparr>]
    \<and> clientMode (fetchLogs remote t)
    \<and> error (fetchLogs remote t) = None
    \<and> clientAll (fetchLogs remote t) = filter (spec_match f) (r_logs response)
    \<and> total_count (fetchLogs remote t) = int (length (filter (spec_match f) (r_logs response)))
    \<and> logs (fetchLogs remote t) =
         slice (filter (spec_match f) (r_logs response)) (offset t) (offset t + limit t)
    \<and> (\<forall>A. r_logs response = take 1000 A \<longrightarrow>
          clientAll (fetchLogs remote t) = filter (spec_match f) (take 1000 A))"
proof -
  have h: "hasTypeOrSeverity (filters_prop t)"
    using assms(1,2) by (simp add: hasTypeOrSeverity_def truthy_is_set)
  have b: "bulk_params (filters_prop t) = \<lparr> p_type = None, p_severity = None, p_date_from = date_from f,
                   p_date_to = date_to f, p_limit = Some 1000, p_offset = Some 0,
                   p_format = Some Json \<rparr>"
    using assms(2) by (simp add: bulk_params_def)
  have r: "remote (bulk_params (filters_prop t)) = Ok (Logs response)"
    using assms(3) b by simp
  show ?thesis
    using fetchLogs_local_ok [of t remote response, OF h r]
    by (simp add: assms(2) fetch_filtered_spec bulk_params_def)
qed

theorem local_cache_is_filtered_bulk_witness:
  "clientAll (fetchLogs serve_three (init (Some (by_type ''pii'')))) = [entry 1 (Some [pii_high])]"
proof -
  have "is_set (f_type (by_type ''pii'')) \<or> is_set (f_severity (by_type ''pii''))"
    by (simp add: by_type_def is_set_def)
  moreover have "filters_prop (init (Some (by_type ''pii''))) = Some (by_type ''pii'')"
    by (simp add: init_def)
  moreover have "serve_three \<lparr> p_type = None, p_severity = None, p_date_from = date_from (by_type ''pii''),
                   p_date_to = date_to (by_type ''pii''), p_limit = Some 1000, p_offset = Some 0,
                   p_format = Some Json \<rparr> = Ok (Logs three_response)"
    by (simp add: serve_three_def)
  ultimately have "clientAll (fetchLogs serve_three (init (Some (by_type ''pii''))))
      = filter (spec_match (by_type ''pii'')) (r_logs three_response)"
    using local_cache_is_filtered_bulk by blast
  then show ?thesis
    by (simp add: three_response_def page_response_def page_def three_records_def spec_match_def
        by_type_def is_set_def risks_of_def entry_def pii_high_def injection_low_def)
qed

section \<open>Exporter\<close>

lemma handleExport_local_ok:
  assumes "hasTypeOrSeverity fo" and "remote (bulk_params fo) = Ok (Logs response)"
  shows "handleExport remote today fo fmt =
     (if fmt = Csv then Downloaded (csv_file today (Text (csv_text (export_filtered fo response))))
      else Downloaded (json_file today (Logs (json_object (export_filtered fo response)))))"
  using assms getLogs_bulk_ok [of remote fo response]
  by (simp add: handleExport_def export_params_def Let_def)

text \<open>
  C5. For criteria with a risk type or a severity set, the export sends the same request
  as the display path (limit 1000, offset 0, type and severity left out), and for every
  answer of the remote source the records that the export serialises, as CSV and as
  JSON, are the records of the display cache.
\<close>

theorem export_same_as_display:
  assumes "hasTypeOrSeverity fo" and "filters_prop t = fo"
  shows "export_params fo fmt = fetch_params (closure_of t)
    \<and> p_type (export_params fo fmt) = None \<and> p_severity (export_params fo fmt) = None
    \<and> p_limit (export_params fo fmt) = Some 1000 \<and> p_offset (export_params fo fmt) = Some 0
    \<and> (\<forall>response. remote (export_params fo fmt) = Ok (Logs response) \<longrightarrow>
          export_filtered fo response = clientAll (fetchLogs remote t)
          \<and> handleExport remote today fo Csv =
              Downloaded (csv_file today (Text (csv_text (clientAll (fetchLogs remote t)))))
          \<and> handleExport remote today fo Json =
              Downloaded (json_file today (Logs (json_object (clientAll (fetchLogs remote t))))))"
proof -
  have p: "export_params fo fmt = bulk_params fo"
    using assms(1) by (simp add: export_params_def)
  have q: "fetch_params (closure_of t) = bulk_params fo"
    using assms by (simp add: fetch_params_def closure_of_def)
  have fields: "p_type (bulk_params fo) = None" "p_severity (bulk_params fo) = None"
    "p_limit (bulk_params fo) = Some 1000" "p_offset (bulk_params fo) = Some 0"
    by (simp_all add: bulk_params_def)
  have same: "export_filtered fo response = clientAll (fetchLogs remote t)
          \<and> handleExport remote today fo Csv =
              Downloaded (csv_file today (Text (csv_text (clientAll (fetchLogs remote t)))))
          \<and> handleExport remote today fo Json =
              Downloaded (json_file today (Logs (json_object (clientAll (fetchLogs remote t)))))"
    if r: "remote (bulk_params fo) = Ok (Logs response)" for response
  proof -
    have c: "clientAll (fetchLogs remote t) = fetch_filtered fo response"
      using fetchLogs_local_ok [of t remote response] assms r by simp
    show ?thesis
      using handleExport_local_ok [of fo remote response today] assms(1) r
      by (simp add: c export_filtered_fetch_filtered)
  qed
  show ?thesis
    using same by (simp add: p q fields)
qed

theorem export_same_as_display_witness:
  "handleExport serve_three ''2024-01-02'' (Some (by_type ''pii'')) Json =
     Downloaded (json_file ''2024-01-02'' (Logs (json_object
       (clientAll (fetchLogs serve_three (init (Some (by_type ''pii''))))))))"
proof -
  have "hasTypeOrSeverity (Some (by_type ''pii''))"
    by (simp add: hasTypeOrSeverity_def by_type_def truthy_def)
  moreover have "filters_prop (init (Some (by_type ''pii''))) = Some (by_type ''pii'')"
    by (simp add: init_def)
  moreover have "serve_three (export_params (Some (by_type ''pii'')) Json) = Ok (Logs three_response)"
    by (simp add: serve_three_def)
  ultimately show ?thesis
    using export_same_as_display [of "Some (by_type ''pii'')" "init (Some (by_type ''pii''))" Json serve_three "''2024-01-02''"]
    by blast
qed

text \<open>
  C7. The JSON export in local mode is the object with \<^verbatim>\<open>logs\<close> the filtered array,
  \<^verbatim>\<open>total\<close> and \<^verbatim>\<open>limit\<close> its length, \<^verbatim>\<open>offset\<close> 0 and \<^verbatim>\<open>has_more\<close> false.
\<close>

theorem local_json_export:
  assumes "hasTypeOrSeverity fo" and "remote (export_params fo Json) = Ok (Logs response)"
  shows "handleExport remote today fo Json =
      Downloaded \<lparr> file_name = ''logs-'' @ today @ ''.json'', mime_type = ''application/json'',
        content = Logs \<lparr> r_logs = export_filtered fo response,
                         r_total = int (length (export_filtered fo response)),
                         r_limit = int (length (export_filtered fo response)),
                         r_offset = 0, r_has_more = False \<rparr> \<rparr>"
proof -
  have "remote (bulk_params fo) = Ok (Logs response)"
    using assms by (simp add: export_params_def)
  then show ?thesis
    using handleExport_local_ok [of fo remote response today Json] assms(1)
    by (simp add: json_file_def json_object_def)
qed

theorem local_json_export_witness:
  "handleExport serve_three ''2024-01-02'' (Some (by_type ''pii'')) Json =
      Downloaded \<lparr> file_name = ''logs-2024-01-02.json'', mime_type = ''application/json'',
        content = Logs \<lparr> r_logs = [entry 1 (Some [pii_high])], r_total = 1, r_limit = 1,
                         r_offset = 0, r_has_more = False \<rparr> \<rparr>"
proof -
  have h: "hasTypeOrSeverity (Some (by_type ''pii''))"
    by (simp add: hasTypeOrSeverity_def by_type_def truthy_def)
  have r: "serve_three (export_params (Some (by_type ''pii'')) Json) = Ok (Logs three_response)"
    by (simp add: serve_three_def)
  have f: "export_filtered (Some (by_type ''pii'')) three_response = [entry 1 (Some [pii_high])]"
    by (simp add: export_filtered_def export_match_def three_response_def page_response_def
        page_def three_records_def by_type_def entry_def pii_high_def injection_low_def)
  show ?thesis
    using local_json_export [of "Some (by_type ''pii'')" serve_three three_response "''2024-01-02''", OF h r]
    by (simp add: f)
qed

text \<open>
  C4, as stated, fails: without a risk type or a severity the export request still
  carries \<^verbatim>\<open>limit = 1000\<close> and \<^verbatim>\<open>offset = 0\<close>, for both formats.
\<close>

theorem remote_export_unpaged_counterexample:
  "\<not> hasTypeOrSeverity None \<and> p_limit (export_params None Csv) = Some 1000
   \<and> p_offset (export_params None Csv) = Some 0
   \<and> p_limit (export_params None Json) = Some 1000
   \<and> p_offset (export_params None Json) = Some 0"
  by (simp add: hasTypeOrSeverity_def export_params_def spread_params_def)

text \<open>
  C4, amended. For criteria without a risk type or a severity, the export sends all the
  criteria to the remote source together with \<^verbatim>\<open>limit = 1000\<close>, \<^verbatim>\<open>offset = 0\<close> and the
  format asked for, and the downloaded file holds the returned payload as it came: the
  text of a CSV answer, the value of a JSON answer.
\<close>

theorem remote_export_passthrough:
  assumes "\<not> hasTypeOrSeverity (Some f)"
  shows "export_params (Some f) fmt =
           \<lparr> p_type = f_type f, p_severity = f_severity f, p_date_from = date_from f,
             p_date_to = date_to f, p_limit = Some 1000, p_offset = Some 0,
             p_format = Some fmt \<rparr>
    \<and> (\<forall>body. remote (export_params (Some f) Csv) = Ok body \<longrightarrow>
          handleExport remote today (Some f) Csv =
            Downloaded \<lparr> file_name = ''logs-'' @ today @ ''.csv'', mime_type = ''text/csv'',
                         content = body \<rparr>)
    \<and> (\<forall>response. remote (export_params (Some f) Json) = Ok (Logs response) \<longrightarrow>
          handleExport remote today (Some f) Json =
            Downloaded \<lparr> file_name = ''logs-'' @ today @ ''.json'',
                         mime_type = ''application/json'', content = Logs response \<rparr>)"
  using assms
  by (simp add: export_params_def spread_params_def handleExport_def getLogs_def
      getLogs_response_def fetchAPI_def csv_file_def json_file_def)

theorem remote_export_passthrough_witness:
  "p_limit (export_params (Some no_filters) Csv) = Some 1000
   \<and> handleExport serve_text ''2024-01-02'' (Some no_filters) Csv =
        Downloaded \<lparr> file_name = ''logs-2024-01-02.csv'', mime_type = ''text/csv'',
                     content = Text ''id,request_id'' \<rparr>
   \<and> handleExport serve_text ''2024-01-02'' (Some no_filters) Json =
        Downloaded \<lparr> file_name = ''logs-2024-01-02.json'', mime_type = ''application/json'',
                     content = Logs three_response \<rparr>"
proof -
  have h: "\<not> hasTypeOrSeverity (Some no_filters)"
    by (simp add: hasTypeOrSeverity_def no_filters_def truthy_def)
  have c: "serve_text (export_params (Some no_filters) Csv) = Ok (Text ''id,request_id'')"
    by (simp add: serve_text_def export_params_def spread_params_def h)
  have j: "serve_text (export_params (Some no_filters) Json) = Ok (Logs three_response)"
    by (simp add: serve_text_def export_params_def spread_params_def h)
  show ?thesis
    using remote_export_passthrough [of no_filters Csv serve_text "''2024-01-02''", OF h] c j
    by simp
qed

section \<open>Failure of the remote call\<close>

lemma format_fetch_params: "p_format (fetch_params c) = Some Json"
  by (simp add: fetch_params_def bulk_params_def spread_params_def)











section \<open>The CSV text of the local export\<close>

lemma digit_in: "digit d \<in> set ''0123456789''"
proof -
  have "d mod 10 < length ''0123456789''" by simp
  then show ?thesis unfolding digit_def by (rule nth_mem)
qed

lemma nat_digits_set: "set (nat_digits n) \<subseteq> set ''0123456789''"
proof (induction n rule: nat_digits.induct)
  case (1 n)
  show ?case
  proof (cases "n < 10")
    case True
    then show ?thesis using digit_in [of n] by (subst nat_digits.simps) simp
  next
    case False
    with 1 digit_in [of "n mod 10"] show ?thesis by (subst nat_digits.simps) simp
  qed
qed

lemma String_set: "set (String i) \<subseteq> set ''-0123456789''"
proof -
  have s: "set ''-0123456789'' = insert CHR ''-'' (set ''0123456789'')" by simp
  show ?thesis
  proof (cases "i < 0")
    case True
    then have "set (String i) = insert CHR ''-'' (set (nat_digits (nat (- i))))"
      by (simp add: String_def)
    then show ?thesis
      unfolding s using nat_digits_set [of "nat (- i)"] by (simp only: insert_mono)
  next
    case False
    then have "set (String i) = set (nat_digits (nat i))"
      by (simp add: String_def)
    then show ?thesis
      unfolding s using nat_digits_set [of "nat i"] by (simp only: subset_insertI2)
  qed
qed

lemma String_free:
  "comma \<notin> set (String i)" "quote \<notin> set (String i)" "newline \<notin> set (String i)"
proof -
  have "comma \<notin> set ''-0123456789''" "quote \<notin> set ''-0123456789''"
    "newline \<notin> set ''-0123456789''"
    by (simp_all add: comma_def quote_def newline_def)
  then show "comma \<notin> set (String i)" "quote \<notin> set (String i)" "newline \<notin> set (String i)"
    using String_set [of i] by blast+
qed

lemma split_on_free: "c \<notin> set a \<Longrightarrow> split_on c a = [a]"
  by (induction a) auto

lemma split_on_append: "c \<notin> set a \<Longrightarrow> split_on c (a @ c # rest) = a # split_on c rest"
  by (induction a) auto

lemma split_on_join:
  "xs \<noteq> [] \<Longrightarrow> \<forall>x \<in> set xs. c \<notin> set x \<Longrightarrow> split_on c (join [c] xs) = xs"
proof (induction xs rule: induct_list012)
  case 1
  then show ?case by simp
next
  case (2 x)
  then show ?case by (simp add: split_on_free)
next
  case (3 x y zs)
  then show ?case by (simp add: split_on_append)
qed

lemma quoted_free: "c \<noteq> quote \<Longrightarrow> c \<notin> set s \<Longrightarrow> c \<notin> set (quoted s)"
  by (simp add: quoted_def)

lemma chars_distinct: "comma \<noteq> quote" "newline \<noteq> quote" "newline \<noteq> comma"
  by (simp_all add: comma_def quote_def newline_def)

lemma csv_cols_free:
  assumes "c = comma \<or> c = newline" and "plain c log"
  shows "\<forall>x \<in> set (csv_cols log). c \<notin> set x"
  using assms String_free chars_distinct
  by (auto simp: csv_cols_def plain_def quoted_def)

lemma csv_row_split: "plain comma log \<Longrightarrow> split_on comma (csv_row log) = csv_cols log"
  unfolding csv_row_def
  by (rule split_on_join) (simp_all add: csv_cols_free, simp add: csv_cols_def)

lemma join_free:
  "\<forall>x \<in> set xs. c \<notin> set x \<Longrightarrow> c \<notin> set sep \<Longrightarrow> c \<notin> set (join sep xs)"
  by (induction sep xs rule: join.induct) auto

lemma csv_row_no_newline: "plain newline log \<Longrightarrow> newline \<notin> set (csv_row log)"
  unfolding csv_row_def
  by (rule join_free) (simp_all add: csv_cols_free chars_distinct)

lemma csv_scan_inside:
  "quote \<notin> set s \<Longrightarrow> csv_scan True cur (s @ rest) = csv_scan True (rev s @ cur) rest"
  by (induction s arbitrary: cur) auto

lemma csv_scan_outside:
  "quote \<notin> set s \<Longrightarrow> comma \<notin> set s \<Longrightarrow>
     csv_scan False cur (s @ rest) = csv_scan False (rev s @ cur) rest"
  by (induction s arbitrary: cur) auto

lemma csv_scan_quoted:
  assumes "quote \<notin> set s"
  shows "csv_scan False [] (quoted s @ comma # rest) = quoted s # csv_scan False [] rest"
  using csv_scan_inside [OF assms, of "[quote]" "quote # comma # rest"] chars_distinct
  by (simp add: quoted_def)

lemma csv_scan_number:
  "csv_scan False [] (String i @ comma # rest) = String i # csv_scan False [] rest"
  using csv_scan_outside [of "String i" "[]" "comma # rest"] String_free chars_distinct
  by simp

lemma csv_scan_last: "csv_scan False [] (String i) = [String i]"
  using csv_scan_outside [of "String i" "[]" "[]"] String_free
  by simp

lemma csv_row_fields: "plain quote log \<Longrightarrow> csv_fields (csv_row log) = csv_cols log"
  by (simp add: csv_fields_def csv_row_def csv_cols_def plain_def csv_scan_number
      csv_scan_quoted csv_scan_last)

lemma csv_text_lines:
  assumes "\<forall>log \<in> set filtered. plain newline log"
  shows "split_on newline (csv_text filtered) =
     ''id,request_id,timestamp,decision,risk_count'' #
       (if filtered = [] then [[]] else map csv_row filtered)"
proof -
  have h: "newline \<notin> set ''id,request_id,timestamp,decision,risk_count''"
    by (simp add: newline_def)
  have rows: "\<forall>x \<in> set (map csv_row filtered). newline \<notin> set x"
    using assms by (auto simp: csv_row_no_newline)
  have "split_on newline (join [newline] (map csv_row filtered)) =
      (if filtered = [] then [[]] else map csv_row filtered)"
    using split_on_join [OF _ rows] by auto
  then show ?thesis
    unfolding csv_text_def csv_header_def
    using split_on_append [OF h] by simp
qed

lemma split_on_nonempty: "split_on c s \<noteq> []"
  by (induction s) (auto split: list.splits)

lemma length_split_on: "length (split_on c s) = Suc (count_list s c)"
  using split_on_nonempty [of c]
  by (induction s) (auto split: list.splits)

lemma count_list_free: "c \<notin> set s \<Longrightarrow> count_list s c = 0"
  by (simp add: count_list_0_iff)

lemma csv_row_literal:
  "csv_row log = String (log_id log) @ [comma, quote] @ request_id log @ [quote, comma, quote]
      @ timestamp log @ [quote, comma, quote] @ decision log @ [quote] @ [comma]
      @ String (case risks log of None \<Rightarrow> 0 | Some rs \<Rightarrow> int (length rs))"
  by (simp add: csv_row_def csv_cols_def quoted_def)

lemma csv_row_commas:
  "length (split_on comma (csv_row log)) =
     5 + count_list (request_id log) comma + count_list (timestamp log) comma
       + count_list (decision log) comma"
  using chars_distinct
  by (simp add: length_split_on csv_row_literal count_list_free String_free)

lemma String_digit: "0 \<le> i \<Longrightarrow> i < 10 \<Longrightarrow> String i = [digit (nat i)]"
  by (simp add: String_def nat_digits.simps)

text \<open>
  C6, as stated, fails. A record with one risk whose request identifier holds a double
  quote, a comma and a double quote passes the filter on the risk type; the local CSV
  export of the remote source that serves it is the header line and the row of this
  record, and that row has six comma-separated fields, whether it is cut at every comma
  or read with regard to the quotes.
\<close>

theorem csv_fields_counterexample:
  "hasTypeOrSeverity (Some (by_type ''pii''))
   \<and> handleExport serve_tricky ''2024-01-02'' (Some (by_type ''pii'')) Csv =
       Downloaded \<lparr> file_name = ''logs-2024-01-02.csv'', mime_type = ''text/csv'',
         content = Text (''id,request_id,timestamp,decision,risk_count'' @ [newline] @
                         csv_row tricky) \<rparr>
   \<and> length (split_on comma (csv_row tricky)) = 6
   \<and> length (csv_fields (csv_row tricky)) = 6"
proof -
  have h: "hasTypeOrSeverity (Some (by_type ''pii''))"
    by (simp add: hasTypeOrSeverity_def by_type_def truthy_def)
  have r: "serve_tricky (bulk_params (Some (by_type ''pii''))) = Ok (Logs (page_response [tricky] 1000 0))"
    by (simp add: serve_tricky_def)
  have x: "export_filtered (Some (by_type ''pii'')) (page_response [tricky] 1000 0) = [tricky]"
    by (simp add: export_filtered_def export_match_def page_response_def page_def by_type_def
        tricky_def entry_def pii_high_def)
  have e: "handleExport serve_tricky ''2024-01-02'' (Some (by_type ''pii'')) Csv =
       Downloaded \<lparr> file_name = ''logs-2024-01-02.csv'', mime_type = ''text/csv'',
         content = Text (''id,request_id,timestamp,decision,risk_count'' @ [newline] @
                         csv_row tricky) \<rparr>"
    using handleExport_local_ok [of "Some (by_type ''pii'')" serve_tricky
        "page_response [tricky] 1000 0" "''2024-01-02''" Csv, OF h r]
    by (simp add: x csv_file_def csv_text_def csv_header_def)
  have f: "length (split_on comma (csv_row tricky)) = 6 \<and> length (csv_fields (csv_row tricky)) = 6"
    by (simp add: csv_row_literal tricky_def entry_def String_digit digit_def
      csv_fields_def quote_def comma_def)
  from h e f show ?thesis by simp
qed

text \<open>
  C6, amended. The CSV text of the local export is the header line followed by the rows
  of the records, one for each, joined by newlines, and a row is the five cells (the
  identifier in decimal; the request identifier, the timestamp and the decision, each
  between double quotes; the number of risks, 0 when the array is missing) joined by
  commas. When the three quoted strings of every record hold no newline, the text cut at
  newlines is the header line followed by exactly one line for each record (and by one
  empty line when there is no record). When they hold no comma, the row cut at commas
  gives exactly these five fields; when they hold no double quote, the row read with
  regard to the quotes gives exactly these five fields.
\<close>

theorem csv_export_shape:
  "(hasTypeOrSeverity fo \<and> remote (export_params fo Csv) = Ok (Logs response) \<longrightarrow>
      handleExport remote today fo Csv =
        Downloaded \<lparr> file_name = ''logs-'' @ today @ ''.csv'', mime_type = ''text/csv'',
          content = Text (''id,request_id,timestamp,decision,risk_count'' @ [newline] @
                          join [newline] (map csv_row (export_filtered fo response))) \<rparr>)
   \<and> ((\<forall>log \<in> set filtered. plain newline log) \<longrightarrow>
      split_on newline (csv_text filtered) =
        ''id,request_id,timestamp,decision,risk_count'' #
          (if filtered = [] then [[]] else map csv_row filtered))
   \<and> (plain comma log \<longrightarrow>
      split_on comma (csv_row log) =
        [ String (log_id log), quote # request_id log @ [quote], quote # timestamp log @ [quote],
          quote # decision log @ [quote],
          String (case risks log of None \<Rightarrow> 0 | Some rs \<Rightarrow> int (length rs)) ])
   \<and> (plain quote log \<longrightarrow>
      csv_fields (csv_row log) =
        [ String (log_id log), quote # request_id log @ [quote], quote # timestamp log @ [quote],
          quote # decision log @ [quote],
          String (case risks log of None \<Rightarrow> 0 | Some rs \<Rightarrow> int (length rs)) ])"
proof -
  have "handleExport remote today fo Csv =
        Downloaded \<lparr> file_name = ''logs-'' @ today @ ''.csv'', mime_type = ''text/csv'',
          content = Text (''id,request_id,timestamp,decision,risk_count'' @ [newline] @
                          join [newline] (map csv_row (export_filtered fo response))) \<rparr>"
    if "hasTypeOrSeverity fo" and "remote (export_params fo Csv) = Ok (Logs response)"
    using handleExport_local_ok [of fo remote response today Csv] that
    by (simp add: export_params_def csv_file_def csv_text_def csv_header_def)
  then show ?thesis
    using csv_text_lines [of filtered] csv_row_split [of log] csv_row_fields [of log]
    by (simp add: csv_cols_def quoted_def)
qed

theorem csv_export_shape_witness:
  "handleExport serve_three ''2024-01-02'' (Some (by_type ''pii'')) Csv =
     Downloaded \<lparr> file_name = ''logs-2024-01-02.csv'', mime_type = ''text/csv'',
       content = Text (''id,request_id,timestamp,decision,risk_count'' @ [newline] @
                       csv_row (entry 1 (Some [pii_high]))) \<rparr>
   \<and> split_on newline (csv_text three_records) =
     [ ''id,request_id,timestamp,decision,risk_count'',
       csv_row (entry 1 (Some [pii_high])), csv_row (entry 2 (Some [injection_low])),
       csv_row (entry 3 None) ]
   \<and> split_on comma (csv_row (entry 3 None)) =
     [ ''3'', quote # ''req'' @ [quote], quote # ''2024-01-01T00:00:00Z'' @ [quote],
       quote # ''allow'' @ [quote], ''0'' ]
   \<and> csv_fields (csv_row (entry 1 (Some [pii_high]))) =
     [ ''1'', quote # ''req'' @ [quote], quote # ''2024-01-01T00:00:00Z'' @ [quote],
       quote # ''allow'' @ [quote], ''1'' ]"
proof -
  have n: "\<forall>log \<in> set three_records. plain newline log"
    by (simp add: three_records_def plain_def entry_def newline_def)
  have c: "plain comma (entry 3 None)"
    by (simp add: plain_def entry_def comma_def)
  have q: "plain quote (entry 1 (Some [pii_high]))"
    by (simp add: plain_def entry_def quote_def)
  have l: "split_on newline (csv_text three_records) =
        ''id,request_id,timestamp,decision,risk_count'' #
          (if three_records = [] then [[]] else map csv_row three_records)"
    using csv_export_shape [where filtered = three_records] n by blast
  have s: "split_on comma (csv_row (entry 3 None)) =
        [ String (log_id (entry 3 None)), quote # request_id (entry 3 None) @ [quote],
          quote # timestamp (entry 3 None) @ [quote], quote # decision (entry 3 None) @ [quote],
          String (case risks (entry 3 None) of None \<Rightarrow> 0 | Some rs \<Rightarrow> int (length rs)) ]"
    using csv_export_shape [where log = "entry 3 None"] c by blast
  have f: "csv_fields (csv_row (entry 1 (Some [pii_high]))) =
        [ String (log_id (entry 1 (Some [pii_high]))),
          quote # request_id (entry 1 (Some [pii_high])) @ [quote],
          quote # timestamp (entry 1 (Some [pii_high])) @ [quote],
          quote # decision (entry 1 (Some [pii_high])) @ [quote],
          String (case risks (entry 1 (Some [pii_high])) of None \<Rightarrow> 0
                  | Some rs \<Rightarrow> int (length rs)) ]"
    using csv_export_shape [where log = "entry 1 (Some [pii_high])"] q by blast
  have h: "hasTypeOrSeverity (Some (by_type ''pii''))"
    by (simp add: hasTypeOrSeverity_def by_type_def truthy_def)
  have r: "serve_three (export_params (Some (by_type ''pii'')) Csv) = Ok (Logs three_response)"
    by (simp add: serve_three_def)
  have x: "export_filtered (Some (by_type ''pii'')) three_response = [entry 1 (Some [pii_high])]"
    by (simp add: export_filtered_def export_match_def three_response_def page_response_def
        page_def three_records_def by_type_def entry_def pii_high_def injection_low_def)
  have e: "handleExport serve_three ''2024-01-02'' (Some (by_type ''pii'')) Csv =
     Downloaded \<lparr> file_name = ''logs-2024-01-02.csv'', mime_type = ''text/csv'',
       content = Text (''id,request_id,timestamp,decision,risk_count'' @ [newline] @
                       csv_row (entry 1 (Some [pii_high]))) \<rparr>"
    using csv_export_shape [where fo = "Some (by_type ''pii'')" and remote = serve_three
        and response = three_response and today = "''2024-01-02''"] h r
    by (simp add: x)
  show ?thesis
    by (simp only: e l s f) (simp add: three_records_def entry_def String_digit digit_def)
qed

text \<open>
  C10. A row of the local CSV export is the concatenation of the values as they are, with
  no escaping: the identifier, then \<^verbatim>\<open>,"\<close>, the request identifier, \<^verbatim>\<open>","\<close>, the
  timestamp, \<^verbatim>\<open>","\<close>, the decision, \<^verbatim>\<open>"\<close>, a comma and the number of risks. Cut at
  commas the row has exactly five fields only when none of the three strings holds a
  comma, and there is a record with a double quote and a comma in its request identifier
  whose row has not five fields, however it is read.
\<close>

theorem csv_row_verbatim:
  "csv_row log = String (log_id log) @ [comma, quote] @ request_id log @ [quote, comma, quote]
      @ timestamp log @ [quote, comma, quote] @ decision log @ [quote] @ [comma]
      @ String (case risks log of None \<Rightarrow> 0 | Some rs \<Rightarrow> int (length rs))
   \<and> (length (split_on comma (csv_row log)) = 5 \<longleftrightarrow> plain comma log)
   \<and> (\<exists>bad. quote \<in> set (request_id bad) \<and> comma \<in> set (request_id bad)
         \<and> length (split_on comma (csv_row bad)) \<noteq> 5
         \<and> length (csv_fields (csv_row bad)) \<noteq> 5)"
proof (intro conjI)
  show "csv_row log = String (log_id log) @ [comma, quote] @ request_id log @ [quote, comma, quote]
      @ timestamp log @ [quote, comma, quote] @ decision log @ [quote] @ [comma]
      @ String (case risks log of None \<Rightarrow> 0 | Some rs \<Rightarrow> int (length rs))"
    by (rule csv_row_literal)
  show "length (split_on comma (csv_row log)) = 5 \<longleftrightarrow> plain comma log"
    by (simp add: csv_row_commas plain_def count_list_0_iff)
  have "length (split_on comma (csv_row tricky)) = 6 \<and> length (csv_fields (csv_row tricky)) = 6"
    by (simp add: csv_row_literal tricky_def entry_def String_digit digit_def
      csv_fields_def quote_def comma_def)
  moreover have "quote \<in> set (request_id tricky) \<and> comma \<in> set (request_id tricky)"
    by (simp add: tricky_def)
  ultimately show "\<exists>bad. quote \<in> set (request_id bad) \<and> comma \<in> set (request_id bad)
         \<and> length (split_on comma (csv_row bad)) \<noteq> 5
         \<and> length (csv_fields (csv_row bad)) \<noteq> 5"
    by (intro exI [of _ tricky]) simp
qed

section \<open>Offset changes and the remote source\<close>

lemma length_many: "length many = 51"
  by (simp add: many_def)

lemma many_match: "\<forall>x \<in> set many. fetch_match (Some ''pii'') None x"
  by (simp add: many_def fetch_match_def entry_def pii_high_def)

lemma fetch_filtered_many:
  "fetch_filtered (Some (by_type ''pii'')) (page_response many 1000 0) = many"
  using many_match
  by (simp add: fetch_filtered_def by_type_def page_response_def page_def length_many)

lemma slice_many: "slice many 0 50 = take 50 many"
  by (simp add: slice_def length_many)

lemma local_51_eq:
  "local_51 = \<lparr> logs = take 50 many, loading = False, error = None, total_count = 51, limit = 50,
      offset = 0, hasMore = True, clientMode = True, clientAll = many,
      filters_prop = Some (by_type ''pii''), calls = [bulk_params (Some (by_type ''pii''))],
      pending = [] \<rparr>"
proof -
  have h: "hasTypeOrSeverity (Some (by_type ''pii''))"
    by (simp add: hasTypeOrSeverity_def by_type_def truthy_def)
  show ?thesis
    by (simp add: local_51_def run_def mount_def init_def fetchLogs_start_def fetchLogs_begin_def
        closure_of_def reslice_def settle_def resume_waiting_def fetch_params_def h getLogs_response_def
        fetchAPI_def fetchLogs_resume_def fetch_filtered_many length_many slice_many
        bulk_params_def)
qed

lemma remote_51_eq:
  "remote_51 = \<lparr> logs = take 50 many, loading = False, error = None, total_count = 51, limit = 50,
      offset = 0, hasMore = True, clientMode = False, clientAll = [],
      filters_prop = None, calls = [spread_params None 50 0 Json],
      pending = [] \<rparr>"
proof -
  have h: "\<not> hasTypeOrSeverity None"
    by (simp add: hasTypeOrSeverity_def)
  show ?thesis
    by (simp add: remote_51_def run_def mount_def init_def fetchLogs_start_def fetchLogs_begin_def
        closure_of_def reslice_def settle_def resume_waiting_def fetch_params_def h getLogs_response_def
        fetchAPI_def fetchLogs_resume_def length_many page_response_def page_def
        spread_params_def)
qed

lemma many_nonempty: "many \<noteq> []"
  using length_many by auto

text \<open>
  C1, as stated, fails: in local mode, with fifty-one records in the cache, a click on
  "next" changes the offset only (criteria and page size stay), the cache is kept, and
  one more request goes to the remote source.
\<close>

theorem offset_change_counterexample:
  "clientMode local_51
   \<and> render local_51 = TableView (take 50 many) 1 50 51 True False
   \<and> filters_prop (step Next local_51) = filters_prop local_51
   \<and> limit (step Next local_51) = limit local_51
   \<and> offset local_51 = 0 \<and> offset (step Next local_51) = 50
   \<and> clientAll (step Next local_51) = clientAll local_51
   \<and> calls local_51 = [bulk_params (Some (by_type ''pii''))]
   \<and> calls (step Next local_51) =
        [bulk_params (Some (by_type ''pii'')), bulk_params (Some (by_type ''pii''))]"
proof -
  have h: "hasTypeOrSeverity (Some (by_type ''pii''))"
    by (simp add: hasTypeOrSeverity_def by_type_def truthy_def)
  have r: "render local_51 = TableView (take 50 many) 1 50 51 True False"
    by (simp add: local_51_eq render_def truthy_def)
  show ?thesis
    by (simp add: r) (simp add: local_51_eq click_next_def set_offset_def fetchLogs_start_def
        fetchLogs_begin_def closure_of_def reslice_def fetch_params_def h)
qed

lemma calls_set_offset:
  "calls (set_offset v t) =
     (if v = offset t then calls t
      else calls t @ [fetch_params \<lparr> c_filters = filters_prop t, c_limit = limit t, c_offset = v \<rparr>])"
  by (simp add: set_offset_def reslice_def fetchLogs_start_def fetchLogs_begin_def closure_of_def)

lemma calls_set_limit:
  "calls (set_limit l t) =
     (if l = limit t then calls t
      else calls t @ [fetch_params \<lparr> c_filters = filters_prop t, c_limit = l, c_offset = offset t \<rparr>])"
  by (simp add: set_limit_def reslice_def fetchLogs_start_def fetchLogs_begin_def closure_of_def)

lemma calls_set_filters:
  "calls (set_filters fo t) =
     calls t @ [fetch_params \<lparr> c_filters = fo, c_limit = limit t, c_offset = offset t \<rparr>]"
  by (simp add: set_filters_def fetchLogs_start_def fetchLogs_begin_def closure_of_def)

lemma calls_resume: "calls (fetchLogs_resume c outcome t) = calls t"
  by (simp add: fetchLogs_resume_def Let_def split: sum.splits payload.splits exn.splits)

lemma calls_reslice: "calls (reslice t) = calls t"
  by (simp add: reslice_def)

lemma calls_settle: "calls (settle i resp t) = calls t"
  by (simp add: settle_def resume_waiting_def Let_def calls_resume calls_reslice split: sum.splits payload.splits)

lemma reslice_set_offset:
  assumes "clientMode t" and "v \<noteq> offset t"
  shows "set_offset v t =
     t \<lparr> offset := v, loading := True, error := None,
         calls := calls t @ [fetch_params \<lparr> c_filters = filters_prop t, c_limit = limit t, c_offset = v \<rparr>],
         pending := pending t @ [\<lparr> c_filters = filters_prop t, c_limit = limit t, c_offset = v \<rparr>],
         logs := slice (clientAll t) v (v + limit t),
         hasMore := (v + limit t < int (length (clientAll t))),
         total_count := int (length (clientAll t)) \<rparr>"
  using assms
  by (simp add: set_offset_def reslice_def fetchLogs_start_def fetchLogs_begin_def closure_of_def)

text \<open>
  C1, amended. A request goes to the remote source exactly when the offset, the page size
  or the criteria change (an arriving response sends none, and a setter called with the
  current value sends none). In local mode the request is the bulk request (limit 1000,
  offset 0, type and severity left out) whatever the offset and the page size are, and a
  change of the offset alone keeps the cache and, before any response arrives, re-slices
  it at the new offset.
\<close>

theorem offset_change_reslices_and_refetches:
  "calls (set_offset v t) =
     (if v = offset t then calls t
      else calls t @ [fetch_params \<lparr> c_filters = filters_prop t, c_limit = limit t, c_offset = v \<rparr>])
   \<and> calls (set_limit l t) =
     (if l = limit t then calls t
      else calls t @ [fetch_params \<lparr> c_filters = filters_prop t, c_limit = l, c_offset = offset t \<rparr>])
   \<and> calls (set_filters fo t) =
     calls t @ [fetch_params \<lparr> c_filters = fo, c_limit = limit t, c_offset = offset t \<rparr>]
   \<and> calls (settle i resp t) = calls t
   \<and> (hasTypeOrSeverity (filters_prop t) \<longrightarrow>
        fetch_params \<lparr> c_filters = filters_prop t, c_limit = l, c_offset = v \<rparr> =
          bulk_params (filters_prop t)
        \<and> p_limit (bulk_params (filters_prop t)) = Some 1000
        \<and> p_offset (bulk_params (filters_prop t)) = Some 0
        \<and> p_type (bulk_params (filters_prop t)) = None
        \<and> p_severity (bulk_params (filters_prop t)) = None)
   \<and> (clientMode t \<and> v \<noteq> offset t \<longrightarrow>
        clientAll (set_offset v t) = clientAll t
        \<and> logs (set_offset v t) = slice (clientAll t) v (v + limit t)
        \<and> total_count (set_offset v t) = int (length (clientAll t))
        \<and> hasMore (set_offset v t) = (v + limit t < int (length (clientAll t))))"
proof -
  have bulk: "hasTypeOrSeverity (filters_prop t) \<longrightarrow>
        fetch_params \<lparr> c_filters = filters_prop t, c_limit = l, c_offset = v \<rparr> =
          bulk_params (filters_prop t)
        \<and> p_limit (bulk_params (filters_prop t)) = Some 1000
        \<and> p_offset (bulk_params (filters_prop t)) = Some 0
        \<and> p_type (bulk_params (filters_prop t)) = None
        \<and> p_severity (bulk_params (filters_prop t)) = None"
    by (simp add: fetch_params_def bulk_params_def)
  have cache: "clientMode t \<and> v \<noteq> offset t \<longrightarrow>
        clientAll (set_offset v t) = clientAll t
        \<and> logs (set_offset v t) = slice (clientAll t) v (v + limit t)
        \<and> total_count (set_offset v t) = int (length (clientAll t))
        \<and> hasMore (set_offset v t) = (v + limit t < int (length (clientAll t)))"
    using reslice_set_offset [of t v] by auto
  show ?thesis
    using bulk cache
    by (simp only: calls_set_offset calls_set_limit calls_set_filters calls_settle simp_thms)
qed

theorem offset_change_reslices_and_refetches_witness:
  "calls (set_offset 50 local_51) =
     [bulk_params (Some (by_type ''pii'')), bulk_params (Some (by_type ''pii''))]
   \<and> clientAll (set_offset 50 local_51) = many
   \<and> logs (set_offset 50 local_51) = slice many 50 100"
proof -
  have h: "hasTypeOrSeverity (filters_prop local_51)"
    by (simp add: local_51_eq hasTypeOrSeverity_def by_type_def truthy_def)
  have c: "clientMode local_51 \<and> 50 \<noteq> offset local_51"
    by (simp add: local_51_eq)
  show ?thesis
    using offset_change_reslices_and_refetches [of 50 local_51 50 None 0 NetworkFailure] h c
    by (simp add: local_51_eq)
qed

section \<open>Pager: navigation\<close>






section \<open>The displayed slice\<close>

lemma step_last: "step ev t = last (t # commits ev t)"
  by (cases ev)
     (auto simp: settle_def set_filters_def click_previous_def click_next_def set_offset_def
           split: view.splits sum.splits payload.splits)

lemma back_and_forth_eq:
  "back_and_forth = \<lparr> logs = take 50 many, loading = True, error = None, total_count = 51,
      limit = 50, offset = 0, hasMore = True, clientMode = True, clientAll = many,
      filters_prop = Some (by_type ''pii''),
      calls = [bulk_params (Some (by_type ''pii'')), bulk_params (Some (by_type ''pii'')),
               bulk_params (Some (by_type ''pii''))],
      pending = [\<lparr> c_filters = Some (by_type ''pii''), c_limit = 50, c_offset = 50 \<rparr>,
                 \<lparr> c_filters = Some (by_type ''pii''), c_limit = 50, c_offset = 0 \<rparr>] \<rparr>"
proof -
  have h: "hasTypeOrSeverity (Some (by_type ''pii''))"
    by (simp add: hasTypeOrSeverity_def by_type_def truthy_def)
  have r: "render local_51 = TableView (take 50 many) 1 50 51 True False"
    by (simp add: local_51_eq render_def truthy_def)
  have n: "step Next local_51 =
      \<lparr> logs = drop 50 many, loading = True, error = None, total_count = 51,
      limit = 50, offset = 50, hasMore = False, clientMode = True, clientAll = many,
      filters_prop = Some (by_type ''pii''),
      calls = [bulk_params (Some (by_type ''pii'')), bulk_params (Some (by_type ''pii''))],
      pending = [\<lparr> c_filters = Some (by_type ''pii''), c_limit = 50, c_offset = 50 \<rparr>] \<rparr>"
    by (simp add: r)
       (simp add: local_51_eq click_next_def set_offset_def fetchLogs_start_def
        fetchLogs_begin_def closure_of_def reslice_def fetch_params_def h slice_def length_many)
  have d: "drop 50 many \<noteq> []"
    using length_many by auto
  have r2: "render (step Next local_51) = TableView (drop 50 many) 51 51 51 False True"
    by (subst n) (simp add: render_def truthy_def length_many)
  have "back_and_forth = step Previous (step Next local_51)"
    by (simp add: back_and_forth_def run_def del: step.simps)
  also have "\<dots> = click_previous (step Next local_51)"
    by (simp only: step.simps(2) r2 view.case if_False)
  finally show ?thesis
    by (simp only: n)
       (simp add: click_previous_def set_offset_def fetchLogs_start_def
        fetchLogs_begin_def closure_of_def reslice_def fetch_params_def h slice_def length_many)
qed

lemma stale_commit_eq:
  "stale_commit = \<lparr> logs = drop 50 many, loading = False, error = None, total_count = 51,
      limit = 50, offset = 0, hasMore = False, clientMode = True, clientAll = many,
      filters_prop = Some (by_type ''pii''),
      calls = [bulk_params (Some (by_type ''pii'')), bulk_params (Some (by_type ''pii'')),
               bulk_params (Some (by_type ''pii''))],
      pending = [\<lparr> c_filters = Some (by_type ''pii''), c_limit = 50, c_offset = 0 \<rparr>] \<rparr>"
proof -
  have h: "hasTypeOrSeverity (Some (by_type ''pii''))"
    by (simp add: hasTypeOrSeverity_def by_type_def truthy_def)
  show ?thesis
    by (simp add: stale_commit_def back_and_forth_eq resume_waiting_def fetch_params_def h
        getLogs_response_def fetchAPI_def fetchLogs_resume_def fetch_filtered_many length_many
        slice_def bulk_params_def)
qed

lemma stale_commit_is_render:
  "commits (Response 0 (Ok (Logs (page_response many 1000 0)))) back_and_forth =
     [stale_commit, settle 0 (Ok (Logs (page_response many 1000 0))) back_and_forth]"
  by (simp add: stale_commit_def)
     (simp add: back_and_forth_eq format_fetch_params getLogs_response_def fetchAPI_def)

text \<open>
  C3, as stated, fails. In remote mode, after a click on "next" and before the response
  arrives, the table shows the rows of the previous page under the new offset, and
  \<^verbatim>\<open>hasMore\<close> still holds although offset + limit is not below the total. In local mode,
  when the response to a call arrives whose closure holds another offset than the
  current one, the render that follows shows the slice of the cache at the offset of the
  closure: here the second page and no \<^verbatim>\<open>hasMore\<close> under the offset 0, until the second
  effect re-slices.
\<close>

theorem stale_page_counterexample:
  "\<not> clientMode turning \<and> offset turning = 50 \<and> limit turning = 50
   \<and> total_count turning = 51
   \<and> render turning = TableView (take 50 many) 51 51 51 False False
   \<and> logs turning \<noteq> page many (offset turning) (limit turning)
   \<and> hasMore turning \<and> \<not> offset turning + limit turning < total_count turning
   \<and> stale_commit \<in> set (commits (Response 0 (Ok (Logs (page_response many 1000 0)))) back_and_forth)
   \<and> clientMode stale_commit \<and> clientAll stale_commit = many
   \<and> offset stale_commit = 0 \<and> limit stale_commit = 50
   \<and> render stale_commit = TableView (drop 50 many) 1 50 51 True True
   \<and> logs stale_commit \<noteq> page (clientAll stale_commit) (offset stale_commit) (limit stale_commit)
   \<and> \<not> hasMore stale_commit
   \<and> offset stale_commit + limit stale_commit < int (length (clientAll stale_commit))"
proof -
  have r: "render remote_51 = TableView (take 50 many) 1 50 51 True False"
    by (simp add: remote_51_eq render_def truthy_def)
  have t: "turning = \<lparr> logs = take 50 many, loading = True, error = None, total_count = 51,
      limit = 50, offset = 50, hasMore = True, clientMode = False, clientAll = [],
      filters_prop = None, calls = [spread_params None 50 0 Json, spread_params None 50 50 Json],
      pending = [\<lparr> c_filters = None, c_limit = 50, c_offset = 50 \<rparr>] \<rparr>"
    by (simp add: turning_def r)
       (simp add: remote_51_eq click_next_def set_offset_def fetchLogs_start_def
        fetchLogs_begin_def closure_of_def reslice_def fetch_params_def hasTypeOrSeverity_def)
  have "length (take 50 many) \<noteq> length (page many 50 50)"
    by (simp add: page_def length_many)
  then have "take 50 many \<noteq> page many 50 50" by metis
  then have first: "\<not> clientMode turning \<and> offset turning = 50 \<and> limit turning = 50
   \<and> total_count turning = 51
   \<and> render turning = TableView (take 50 many) 51 51 51 False False
   \<and> logs turning \<noteq> page many (offset turning) (limit turning)
   \<and> hasMore turning \<and> \<not> offset turning + limit turning < total_count turning"
    by (simp add: t render_def truthy_def many_nonempty)
  have d: "drop 50 many \<noteq> []"
    using length_many by auto
  have "length (drop 50 many) \<noteq> length (page many 0 50)"
    by (simp add: page_def length_many)
  then have ne: "drop 50 many \<noteq> page many 0 50" by metis
  have second: "stale_commit \<in> set (commits (Response 0 (Ok (Logs (page_response many 1000 0)))) back_and_forth)
   \<and> clientMode stale_commit \<and> clientAll stale_commit = many
   \<and> offset stale_commit = 0 \<and> limit stale_commit = 50
   \<and> render stale_commit = TableView (drop 50 many) 1 50 51 True True
   \<and> logs stale_commit \<noteq> page (clientAll stale_commit) (offset stale_commit) (limit stale_commit)
   \<and> \<not> hasMore stale_commit
   \<and> offset stale_commit + limit stale_commit < int (length (clientAll stale_commit))"
    using ne
    by (simp only: stale_commit_is_render)
       (simp add: stale_commit_eq render_def truthy_def d length_many)
  from first second show ?thesis by blast
qed

lemma inv_reslice:
  assumes "limit t = 50" and "0 \<le> offset t"
  shows "table_inv (reslice t)"
  using assms slice_page [of "offset t" "limit t" "clientAll t"]
  by (simp add: table_inv_def reslice_def)

lemma inv_start: "table_inv t \<Longrightarrow> table_inv (fetchLogs_start t)"
  by (simp add: table_inv_def fetchLogs_start_def fetchLogs_begin_def)

lemma inv_mount: "table_inv (mount fo)"
  unfolding mount_def
  by (rule inv_reslice) (simp_all add: fetchLogs_start_def fetchLogs_begin_def init_def)

lemma inv_set_offset:
  assumes "table_inv t" and "0 \<le> v"
  shows "table_inv (set_offset v t)"
proof (cases "v = offset t")
  case True
  with assms show ?thesis by (simp add: set_offset_def)
next
  case False
  have "table_inv (reslice (fetchLogs_start (t \<lparr> offset := v \<rparr>)))"
    using assms
    by (intro inv_reslice) (simp_all add: table_inv_def fetchLogs_start_def fetchLogs_begin_def)
  with False show ?thesis by (simp add: set_offset_def)
qed

lemma inv_set_filters: "table_inv t \<Longrightarrow> table_inv (set_filters fo t)"
  by (simp add: table_inv_def set_filters_def fetchLogs_start_def fetchLogs_begin_def)

lemma inv_click_previous: "table_inv t \<Longrightarrow> table_inv (click_previous t)"
  unfolding click_previous_def by (rule inv_set_offset) simp_all

lemma inv_click_next: "table_inv t \<Longrightarrow> table_inv (click_next t)"
  unfolding click_next_def by (rule inv_set_offset) (simp_all add: table_inv_def)

lemma resume_fields:
  "limit (fetchLogs_resume c outcome t) = limit t"
  "offset (fetchLogs_resume c outcome t) = offset t"
  by (simp_all add: fetchLogs_resume_def Let_def split: sum.splits payload.splits exn.splits)

lemma resume_failure_fields:
  assumes "\<forall>response. outcome \<noteq> Inr (Logs response)"
  shows "clientMode (fetchLogs_resume c outcome t) = clientMode t"
    "clientAll (fetchLogs_resume c outcome t) = clientAll t"
    "logs (fetchLogs_resume c outcome t) = logs t"
    "total_count (fetchLogs_resume c outcome t) = total_count t"
    "hasMore (fetchLogs_resume c outcome t) = hasMore t"
  using assms
  by (simp_all add: fetchLogs_resume_def Let_def split: sum.splits payload.splits exn.splits)

lemma inv_settle:
  assumes "table_inv t"
  shows "table_inv (settle i resp t)"
proof (cases "i < length (pending t)")
  case False
  with assms show ?thesis by (simp add: settle_def resume_waiting_def)
next
  case True
  define c where "c = pending t ! i"
  define t1 where "t1 = t \<lparr> pending := take i (pending t) @ drop (Suc i) (pending t) \<rparr>"
  define outcome where "outcome = getLogs_response (p_format (fetch_params c)) resp"
  have t1: "table_inv t1"
    using assms by (simp add: t1_def table_inv_def)
  show ?thesis
  proof (cases "\<exists>response. outcome = Inr (Logs response)")
    case True
    then obtain response where r: "outcome = Inr (Logs response)" ..
    have "settle i resp t = reslice (fetchLogs_resume c outcome t1)"
      using \<open>i < length (pending t)\<close> r
      by (simp add: settle_def resume_waiting_def Let_def c_def t1_def outcome_def)
    moreover have "table_inv (reslice (fetchLogs_resume c outcome t1))"
      using t1 by (intro inv_reslice) (simp_all add: resume_fields table_inv_def)
    ultimately show ?thesis by simp
  next
    case False
    then have f: "\<forall>response. outcome \<noteq> Inr (Logs response)" by simp
    have "settle i resp t = fetchLogs_resume c outcome t1"
      using \<open>i < length (pending t)\<close> f
      by (simp add: settle_def resume_waiting_def Let_def c_def t1_def outcome_def split: sum.splits payload.splits)
    moreover have "table_inv (fetchLogs_resume c outcome t1)"
      using t1 by (simp add: table_inv_def resume_fields resume_failure_fields [OF f])
    ultimately show ?thesis by simp
  qed
qed

lemma inv_step: "table_inv t \<Longrightarrow> table_inv (step ev t)"
  by (cases ev)
     (auto simp: inv_set_filters inv_click_previous inv_click_next inv_settle
           split: view.splits)

lemma inv_run: "table_inv t \<Longrightarrow> table_inv (run evs t)"
  unfolding run_def by (induction evs arbitrary: t) (simp_all add: inv_step)

lemma settle_remote_ok:
  assumes "i < length (pending t)" and "\<not> hasTypeOrSeverity (c_filters (pending t ! i))"
  shows "settle i (Ok (Logs r)) t =
     t \<lparr> pending := take i (pending t) @ drop (Suc i) (pending t),
         clientMode := False, clientAll := [], logs := r_logs r, total_count := r_total r,
         hasMore := r_has_more r, loading := False \<rparr>"
  using assms
  by (simp add: settle_def resume_waiting_def Let_def format_fetch_params getLogs_response_def fetchAPI_def
      fetchLogs_resume_def reslice_def)

text \<open>
  C3, amended. Take any state that the events of the component reach from mounting, the
  effects of every event having run. In client mode the rows are the page of the cache at
  the current offset, the total is the length of the cache and \<^verbatim>\<open>hasMore\<close> holds exactly
  when offset + limit is below that length. In remote mode a change of the offset keeps
  the rows, the total and \<^verbatim>\<open>hasMore\<close> of the previous page while the call for the new
  offset waits; when the response to a waiting call arrives, the rows, the total and
  \<^verbatim>\<open>hasMore\<close> are those of the response as they are. So when the remote source answers
  with the page of a list \<open>A\<close> that the call asked for, they are that page of \<open>A\<close>, the
  length of \<open>A\<close> and the comparison for the offset and the page size of the call, which
  are \<open>A[offset : offset + limit)\<close> and offset + limit < total for the current offset and
  page size when the call was made with them.
\<close>

theorem displayed_slice_invariant:
  assumes "t = run evs (mount fo)"
  shows "(clientMode t \<longrightarrow>
            logs t = page (clientAll t) (offset t) (limit t)
            \<and> total_count t = int (length (clientAll t))
            \<and> hasMore t = (offset t + limit t < int (length (clientAll t))))
    \<and> (\<forall>v. \<not> clientMode t \<and> v \<noteq> offset t \<longrightarrow>
          offset (set_offset v t) = v
          \<and> logs (set_offset v t) = logs t
          \<and> total_count (set_offset v t) = total_count t
          \<and> hasMore (set_offset v t) = hasMore t
          \<and> pending (set_offset v t) =
              pending t @ [\<lparr> c_filters = filters_prop t, c_limit = limit t, c_offset = v \<rparr>])
    \<and> (\<forall>i r. i < length (pending t) \<and> \<not> hasTypeOrSeverity (c_filters (pending t ! i)) \<longrightarrow>
          p_limit (fetch_params (pending t ! i)) = Some (c_limit (pending t ! i))
          \<and> p_offset (fetch_params (pending t ! i)) = Some (c_offset (pending t ! i))
          \<and> \<not> clientMode (settle i (Ok (Logs r)) t)
          \<and> logs (settle i (Ok (Logs r)) t) = r_logs r
          \<and> total_count (settle i (Ok (Logs r)) t) = r_total r
          \<and> hasMore (settle i (Ok (Logs r)) t) = r_has_more r
          \<and> offset (settle i (Ok (Logs r)) t) = offset t
          \<and> limit (settle i (Ok (Logs r)) t) = limit t)
    \<and> (\<forall>i A r. i < length (pending t) \<and> \<not> hasTypeOrSeverity (c_filters (pending t ! i))
            \<and> r = page_response A (c_limit (pending t ! i)) (c_offset (pending t ! i)) \<longrightarrow>
          logs (settle i (Ok (Logs r)) t) =
            page A (c_offset (pending t ! i)) (c_limit (pending t ! i))
          \<and> total_count (settle i (Ok (Logs r)) t) = int (length A)
          \<and> hasMore (settle i (Ok (Logs r)) t) =
              (c_offset (pending t ! i) + c_limit (pending t ! i) < int (length A))
          \<and> (c_offset (pending t ! i) = offset t \<and> c_limit (pending t ! i) = limit t \<longrightarrow>
                logs (settle i (Ok (Logs r)) t) =
                  page A (offset (settle i (Ok (Logs r)) t)) (limit (settle i (Ok (Logs r)) t))
                \<and> hasMore (settle i (Ok (Logs r)) t) =
                    (offset (settle i (Ok (Logs r)) t) + limit (settle i (Ok (Logs r)) t)
                       < total_count (settle i (Ok (Logs r)) t))))"
proof -
  have "table_inv t"
    unfolding assms by (rule inv_run) (rule inv_mount)
  then have local: "clientMode t \<longrightarrow>
            logs t = page (clientAll t) (offset t) (limit t)
            \<and> total_count t = int (length (clientAll t))
            \<and> hasMore t = (offset t + limit t < int (length (clientAll t)))"
    by (simp add: table_inv_def)
  have waiting: "offset (set_offset v t) = v
          \<and> logs (set_offset v t) = logs t
          \<and> total_count (set_offset v t) = total_count t
          \<and> hasMore (set_offset v t) = hasMore t
          \<and> pending (set_offset v t) =
              pending t @ [\<lparr> c_filters = filters_prop t, c_limit = limit t, c_offset = v \<rparr>]"
    if "\<not> clientMode t" "v \<noteq> offset t" for v
    using that
    by (simp add: set_offset_def reslice_def fetchLogs_start_def fetchLogs_begin_def closure_of_def)
  have verbatim: "p_limit (fetch_params (pending t ! i)) = Some (c_limit (pending t ! i))
          \<and> p_offset (fetch_params (pending t ! i)) = Some (c_offset (pending t ! i))
          \<and> \<not> clientMode (settle i (Ok (Logs r)) t)
          \<and> logs (settle i (Ok (Logs r)) t) = r_logs r
          \<and> total_count (settle i (Ok (Logs r)) t) = r_total r
          \<and> hasMore (settle i (Ok (Logs r)) t) = r_has_more r
          \<and> offset (settle i (Ok (Logs r)) t) = offset t
          \<and> limit (settle i (Ok (Logs r)) t) = limit t"
    if "i < length (pending t)" "\<not> hasTypeOrSeverity (c_filters (pending t ! i))" for i r
    using settle_remote_ok [OF that, of r] that(2)
    by (simp add: fetch_params_def spread_params_def)
  have paged: "logs (settle i (Ok (Logs r)) t) =
            page A (c_offset (pending t ! i)) (c_limit (pending t ! i))
          \<and> total_count (settle i (Ok (Logs r)) t) = int (length A)
          \<and> hasMore (settle i (Ok (Logs r)) t) =
              (c_offset (pending t ! i) + c_limit (pending t ! i) < int (length A))
          \<and> (c_offset (pending t ! i) = offset t \<and> c_limit (pending t ! i) = limit t \<longrightarrow>
                logs (settle i (Ok (Logs r)) t) =
                  page A (offset (settle i (Ok (Logs r)) t)) (limit (settle i (Ok (Logs r)) t))
                \<and> hasMore (settle i (Ok (Logs r)) t) =
                    (offset (settle i (Ok (Logs r)) t) + limit (settle i (Ok (Logs r)) t)
                       < total_count (settle i (Ok (Logs r)) t)))"
    if "i < length (pending t)" "\<not> hasTypeOrSeverity (c_filters (pending t ! i))"
      "r = page_response A (c_limit (pending t ! i)) (c_offset (pending t ! i))" for i A r
  proof -
    from verbatim [OF that(1,2), of r]
    have v: "logs (settle i (Ok (Logs r)) t) = r_logs r"
      "total_count (settle i (Ok (Logs r)) t) = r_total r"
      "hasMore (settle i (Ok (Logs r)) t) = r_has_more r"
      "offset (settle i (Ok (Logs r)) t) = offset t"
      "limit (settle i (Ok (Logs r)) t) = limit t"
      by simp_all
    have p: "r_logs r = page A (c_offset (pending t ! i)) (c_limit (pending t ! i))"
      "r_total r = int (length A)"
      "r_has_more r = (c_offset (pending t ! i) + c_limit (pending t ! i) < int (length A))"
      using that(3) by (simp_all add: page_response_def)
    show ?thesis by (simp add: v p)
  qed
  from local waiting verbatim paged show ?thesis by blast
qed

theorem displayed_slice_invariant_witness:
  "logs (step Next local_51) = page many 50 50
   \<and> total_count (step Next local_51) = 51
   \<and> \<not> hasMore (step Next local_51)
   \<and> logs (set_offset 50 remote_51) = take 50 many
   \<and> hasMore (set_offset 50 remote_51)
   \<and> logs (settle 0 (Ok (Logs (page_response many 50 50))) turning) = page many 50 50
   \<and> \<not> hasMore (settle 0 (Ok (Logs (page_response many 50 50))) turning)"
proof -
  have a: "step Next local_51 =
      run [Response 0 (Ok (Logs (page_response many 1000 0))), Next] (mount (Some (by_type ''pii'')))"
    by (simp add: local_51_def run_def)
  have b: "turning = run [Response 0 (Ok (Logs (page_response many 50 0))), Next] (mount None)"
    by (simp add: turning_def remote_51_def run_def)
  have c: "remote_51 = run [Response 0 (Ok (Logs (page_response many 50 0)))] (mount None)"
    by (simp add: remote_51_def)
  have r: "render local_51 = TableView (take 50 many) 1 50 51 True False"
    by (simp add: local_51_eq render_def truthy_def)
  have s: "clientMode (step Next local_51) \<and> clientAll (step Next local_51) = many
      \<and> offset (step Next local_51) = 50 \<and> limit (step Next local_51) = 50"
    by (simp add: r) (simp add: local_51_eq click_next_def set_offset_def fetchLogs_start_def
        fetchLogs_begin_def closure_of_def reslice_def)
  have r2: "render remote_51 = TableView (take 50 many) 1 50 51 True False"
    by (simp add: remote_51_eq render_def truthy_def)
  have u: "pending turning = [\<lparr> c_filters = None, c_limit = 50, c_offset = 50 \<rparr>]
      \<and> offset turning = 50 \<and> limit turning = 50"
    by (simp add: turning_def r2) (simp add: remote_51_eq click_next_def set_offset_def
        fetchLogs_start_def fetchLogs_begin_def closure_of_def reslice_def)
  have h: "\<not> hasTypeOrSeverity None" by (simp add: hasTypeOrSeverity_def)
  have w: "\<not> clientMode remote_51 \<and> 50 \<noteq> offset remote_51 \<and> logs remote_51 = take 50 many
      \<and> hasMore remote_51"
    by (simp add: remote_51_eq)
  from displayed_slice_invariant [OF a] s
  have 1: "logs (step Next local_51) = page many 50 50 \<and> total_count (step Next local_51) = 51
      \<and> \<not> hasMore (step Next local_51)"
    by (simp add: length_many)
  from displayed_slice_invariant [OF c] w
  have 2: "logs (set_offset 50 remote_51) = take 50 many \<and> hasMore (set_offset 50 remote_51)"
    by simp
  from displayed_slice_invariant [OF b]
  have q: "i < length (pending turning) \<and> \<not> hasTypeOrSeverity (c_filters (pending turning ! i))
            \<and> r = page_response A (c_limit (pending turning ! i)) (c_offset (pending turning ! i)) \<longrightarrow>
          logs (settle i (Ok (Logs r)) turning) =
            page A (c_offset (pending turning ! i)) (c_limit (pending turning ! i))
          \<and> hasMore (settle i (Ok (Logs r)) turning) =
              (c_offset (pending turning ! i) + c_limit (pending turning ! i) < int (length A))"
    for i A r
    by blast
  from q [of 0 "page_response many 50 50" many] u h
  have 3: "logs (settle 0 (Ok (Logs (page_response many 50 50))) turning) = page many 50 50
      \<and> \<not> hasMore (settle 0 (Ok (Logs (page_response many 50 50))) turning)"
    by (simp add: length_many)
  from 1 2 3 show ?thesis by blast
qed

end
